theory Spec2Isabelle
  imports Complex_Main "HOL-Library.Sublist" "HOL-Library.Code_Target_Nat"
begin

section \<open>Strings of UTF-16 code units\<close>

text \<open>
  A JavaScript string is a sequence of UTF-16 code units: \<open>length\<close>, \<open>charAt\<close>,
  \<open>includes\<close>, \<open>endsWith\<close> and the regular expressions of the sources (none has the
  \<open>u\<close> flag) all work on code units. A code unit is modelled as a natural number
  (below 65536 in every real string), a string as the list of its code units.
  \<open>ascii\<close> writes an ASCII literal.
\<close>

type_synonym codeunit = nat
type_synonym jstring = "codeunit list"

definition ascii :: "string \<Rightarrow> jstring" where
  "ascii s = map of_char s"

text \<open>The class \<open>\d\<close> (and \<open>[0-9]\<close>): the ten ASCII digits.\<close>

definition isDigit :: "codeunit \<Rightarrow> bool" where
  "isDigit c = (48 \<le> c \<and> c \<le> 57)"

text \<open>
  The class \<open>\s\<close>, which is also what \<open>trim\<close> strips: ECMAScript's WhiteSpace and
  LineTerminator code points.
\<close>

definition isSpace :: "codeunit \<Rightarrow> bool" where
  "isSpace c = ((9 \<le> c \<and> c \<le> 13) \<or> c = 32 \<or> c = 160 \<or> c = 5760 \<or>
                (8192 \<le> c \<and> c \<le> 8202) \<or> c = 8232 \<or> c = 8233 \<or> c = 8239 \<or>
                c = 8287 \<or> c = 12288 \<or> c = 65279)"

definition trim :: "jstring \<Rightarrow> jstring" where
  "trim s = rev (dropWhile isSpace (rev (dropWhile isSpace s)))"

text \<open>\<open>s.includes(k)\<close>: \<open>k\<close> occurs in \<open>s\<close> as a contiguous run.\<close>

primrec includes_str :: "'a list \<Rightarrow> 'a list \<Rightarrow> bool" where
  "includes_str [] k = (k = [])"
| "includes_str (c # s) k = (prefix k (c # s) \<or> includes_str s k)"

text \<open>\<open>s.endsWith(k)\<close>: the last \<open>length k\<close> code units of \<open>s\<close> are \<open>k\<close>.\<close>

definition endsWith :: "'a list \<Rightarrow> 'a list \<Rightarrow> bool" where
  "endsWith s k = (length k \<le> length s \<and> drop (length s - length k) s = k)"

text \<open>
  \<open>s.charAt(k)\<close>: the string of the one code unit at \<open>k\<close>, the empty string out of
  range.
\<close>

definition charAt :: "'a list \<Rightarrow> nat \<Rightarrow> 'a list" where
  "charAt s k = (if k < length s then [s ! k] else [])"

text \<open>
  \<open>row[c]\<close> on an array: \<open>undefined\<close> (here \<open>None\<close>) when \<open>c\<close> is negative or not
  below the length.
\<close>

definition at_index :: "'a list \<Rightarrow> int \<Rightarrow> 'a option" where
  "at_index row c = (if 0 \<le> c \<and> nat c < length row then Some (row ! nat c) else None)"


section \<open>The numeral pre-pass of the OCR service\<close>

text \<open>
  \<open>normalizeArabicNumber\<close>: \<open>text.replace(/[\<dots>]/g, (d) => numeralMap[d] || d)\<close>, where the
  class is the range U+0660 to U+0669 and \<open>numeralMap\<close> has the ten entries below. Every
  code unit of the class is replaced by its entry (or kept, were the entry missing or
  empty), every other code unit is kept.
\<close>

definition numeralMap :: "(codeunit \<times> jstring) list" where
  "numeralMap =
     [(0x660, ascii ''0''), (0x661, ascii ''1''), (0x662, ascii ''2''), (0x663, ascii ''3''),
      (0x664, ascii ''4''), (0x665, ascii ''5''), (0x666, ascii ''6''), (0x667, ascii ''7''),
      (0x668, ascii ''8''), (0x669, ascii ''9'')]"

definition normalizeArabicNumber :: "jstring \<Rightarrow> jstring" where
  "normalizeArabicNumber txt =
     concat (map (\<lambda>d. if 0x660 \<le> d \<and> d \<le> 0x669
                        then (case map_of numeralMap d of
                                Some r \<Rightarrow> if r \<noteq> [] then r else [d]
                              | None \<Rightarrow> [d])
                        else [d]) txt)"

text \<open>\<open>extractedText.split("\n")\<close>: the pieces between line feeds (at least one piece).\<close>

fun splitLines :: "jstring \<Rightarrow> jstring list" where
  "splitLines [] = [[]]"
| "splitLines (c # s) =
     (if c = 10 then [] # splitLines s
      else (case splitLines s of l # ls \<Rightarrow> (c # l) # ls | [] \<Rightarrow> [[c]]))"

text \<open>
  The first statement of \<open>processOCRWithMultipleApproaches\<close>: split into lines, trim
  each line, convert its numerals, drop the empty lines.
\<close>

definition prepareLines :: "jstring \<Rightarrow> jstring list" where
  "prepareLines extractedText =
     filter (\<lambda>line. length line > 0)
       (map (\<lambda>line. normalizeArabicNumber (trim line)) (splitLines extractedText))"


section \<open>The roster and the matcher of the Excel service\<close>

text \<open>
  A cell of \<open>range.values\<close> (typed \<open>any\<close>) holds a string, a number or a boolean.
  Numeric cells are modelled for integer values, which \<open>toString\<close> prints in plain
  decimal notation.
\<close>

datatype any = Str jstring | Num int | Bool bool

fun truthy :: "any \<Rightarrow> bool" where
  "truthy (Str s) = (s \<noteq> [])"
| "truthy (Num n) = (n \<noteq> 0)"
| "truthy (Bool b) = b"

function digitsOf :: "nat \<Rightarrow> jstring" where
  "digitsOf n = (if n < 10 then [48 + n] else digitsOf (n div 10) @ [48 + n mod 10])"
  by pat_completeness auto
termination
  by (relation "measure id") auto

declare digitsOf.simps [simp del]

fun toString :: "any \<Rightarrow> jstring" where
  "toString (Str s) = s"
| "toString (Num n) = (if n < 0 then ascii ''-'' @ digitsOf (nat (- n)) else digitsOf (nat n))"
| "toString (Bool b) = (if b then ascii ''true'' else ascii ''false'')"

text \<open>
  The two columns of \<open>WorksheetStructure\<close> the matcher reads, \<open>studentNameColumn\<close> and
  \<open>studentNumberColumn\<close> (prefixed here: the table structure of the detection service
  has a field of the same name). \<open>findStudentNameColumn\<close> returns -1 when it finds no
  name column, so the columns are integers.
\<close>

record WorksheetStructure =
  wsStudentNameColumn :: int
  wsStudentNumberColumn :: int

datatype error = NotInitialized | TypeError

text \<open>\<open>s.replace(/[^0-9]/g, "")\<close>\<close>

definition stripNonDigits :: "jstring \<Rightarrow> jstring" where
  "stripNonDigits s = filter isDigit s"

text \<open>
  The body of the loop of \<open>findStudentRowByNumber\<close> for one row: the guard
  \<open>numColumn < values[i].length\<close>, the test \<open>if (cellValue)\<close>, and the two
  \<open>endsWith\<close> tests on the cleaned strings.
\<close>

definition numberRowMatches :: "int \<Rightarrow> jstring \<Rightarrow> any list \<Rightarrow> bool" where
  "numberRowMatches numColumn cleanStudentNum row =
     (if numColumn < int (length row) then
        (case at_index row numColumn of
           None \<Rightarrow> False
         | Some cellValue \<Rightarrow>
             if truthy cellValue then
               (let cellStrValue = stripNonDigits (toString cellValue)
                in endsWith cellStrValue cleanStudentNum \<or> endsWith cleanStudentNum cellStrValue)
             else False)
      else False)"

function findStudentRowByNumber_loop :: "int \<Rightarrow> jstring \<Rightarrow> any list list \<Rightarrow> nat \<Rightarrow> int" where
  "findStudentRowByNumber_loop numColumn cleanStudentNum vals i =
     (if i < length vals then
        (if numberRowMatches numColumn cleanStudentNum (vals ! i) then int i
         else findStudentRowByNumber_loop numColumn cleanStudentNum vals (Suc i))
      else - 1)"
  by pat_completeness auto
termination
  by (relation "measure (\<lambda>(numColumn, cleanStudentNum, vals, i). length vals - i)") auto

declare findStudentRowByNumber_loop.simps [simp del]

definition findStudentRowByNumber ::
  "WorksheetStructure option \<Rightarrow> jstring \<Rightarrow> any list list \<Rightarrow> error + int" where
  "findStudentRowByNumber worksheetStructure studentNum vals =
     (case worksheetStructure of
        None \<Rightarrow> Inl NotInitialized
      | Some ws \<Rightarrow>
          Inr (findStudentRowByNumber_loop (wsStudentNumberColumn ws) (stripNonDigits studentNum) vals 1))"


text \<open>
  The id match as the specification words it: the first row from row 1 on whose id cell,
  stripped of its non-digits, is a suffix of the stripped target or has it as a suffix.
\<close>

definition idMatch_spec :: "int \<Rightarrow> jstring \<Rightarrow> any list list \<Rightarrow> int" where
  "idMatch_spec numColumn studentNum vals =
     (case List.find
             (\<lambda>k. case at_index (vals ! k) numColumn of
                     None \<Rightarrow> False
                   | Some v \<Rightarrow>
                       suffix (filter isDigit studentNum) (filter isDigit (toString v)) \<or>
                       suffix (filter isDigit (toString v)) (filter isDigit studentNum))
             [1..<length vals] of
        Some k \<Rightarrow> int k
      | None \<Rightarrow> - 1)"

text \<open>
  What one row's test amounts to: the row has the id column, its cell is truthy, and one
  cleaned string is a suffix of the other.
\<close>

definition idCellMatches :: "jstring \<Rightarrow> any option \<Rightarrow> bool" where
  "idCellMatches studentNum cell =
     (case cell of
        None \<Rightarrow> False
      | Some v \<Rightarrow>
          truthy v \<and>
          (suffix (filter isDigit studentNum) (filter isDigit (toString v)) \<or>
           suffix (filter isDigit (toString v)) (filter isDigit studentNum)))"

definition truthyCell :: "any option \<Rightarrow> bool" where
  "truthyCell cell = (case cell of None \<Rightarrow> False | Some v \<Rightarrow> truthy v)"


section \<open>Edit distance and name similarity\<close>

text \<open>
  \<open>costs[j] = v\<close> on the array \<open>costs\<close>: a write inside the array replaces, a write at
  the length appends, a write further out would leave holes (JavaScript's \<open>undefined\<close>)
  in between. \<open>editDistance\<close> only writes inside the array or at its length.
\<close>

definition assign :: "nat list \<Rightarrow> nat \<Rightarrow> nat \<Rightarrow> nat list" where
  "assign costs j v =
     (if j < length costs then costs[j := v]
      else costs @ replicate (j - length costs) undefined @ [v])"

text \<open>
  The body of the inner loop of \<open>editDistance\<close> at row \<open>i\<close> and column \<open>j\<close>, on the
  state \<open>(lastValue, costs)\<close>.
\<close>

definition editDistance_inner ::
  "'a list \<Rightarrow> 'a list \<Rightarrow> nat \<Rightarrow> nat \<Rightarrow> nat \<times> nat list \<Rightarrow> nat \<times> nat list" where
  "editDistance_inner s1 s2 i j st =
     (case st of (lastValue, costs) \<Rightarrow>
        if i = 0 then (lastValue, assign costs j j)
        else if j > 0 then
          (let newValue = costs ! (j - 1);
               newValue' = (if charAt s1 (i - 1) \<noteq> charAt s2 (j - 1)
                            then min (min newValue lastValue) (costs ! j) + 1
                            else newValue)
           in (newValue', assign costs (j - 1) lastValue))
        else (lastValue, costs))"

text \<open>
  One pass of the outer loop: \<open>lastValue = i\<close>, the inner loop for \<open>j\<close> from 0 to
  \<open>s2.length\<close>, then \<open>if (i > 0) costs[s2.length] = lastValue\<close>.
\<close>

definition editDistance_outer :: "'a list \<Rightarrow> 'a list \<Rightarrow> nat \<Rightarrow> nat list \<Rightarrow> nat list" where
  "editDistance_outer s1 s2 i costs =
     (case fold (editDistance_inner s1 s2 i) [0..<Suc (length s2)] (i, costs) of
        (lastValue, costs') \<Rightarrow>
          if i > 0 then assign costs' (length s2) lastValue else costs')"

definition editDistance :: "'a list \<Rightarrow> 'a list \<Rightarrow> nat" where
  "editDistance s1 s2 = fold (editDistance_outer s1 s2) [0..<Suc (length s1)] [] ! length s2"

text \<open>
  The Levenshtein distance in words: one edit inserts, deletes or substitutes a single
  character anywhere in the string, and the distance is the least number of edits that
  lead from \<open>s1\<close> to \<open>s2\<close>.
\<close>

inductive edit1 :: "'a list \<Rightarrow> 'a list \<Rightarrow> bool" where
  insertion: "edit1 (u @ v) (u @ [a] @ v)"
| deletion: "edit1 (u @ [a] @ v) (u @ v)"
| substitution: "edit1 (u @ [a] @ v) (u @ [b] @ v)"

definition levenshtein :: "'a list \<Rightarrow> 'a list \<Rightarrow> nat" where
  "levenshtein s1 s2 = (LEAST n. (edit1 ^^ n) s1 s2)"

text \<open>The textbook recurrence of the distance, on the first characters.\<close>

fun lev :: "'a list \<Rightarrow> 'a list \<Rightarrow> nat" where
  "lev [] ys = length ys"
| "lev (x # xs) [] = Suc (length xs)"
| "lev (x # xs) (y # ys) =
     min (min (Suc (lev xs (y # ys))) (Suc (lev (x # xs) ys)))
         ((if x = y then 0 else 1) + lev xs ys)"

text \<open>
  The table of the dynamic programme: the distance between the first \<open>i\<close> characters of
  \<open>s1\<close> and the first \<open>j\<close> characters of \<open>s2\<close> (the recurrence consumes the last
  character of each prefix, hence the reversal).
\<close>

definition dist :: "'a list \<Rightarrow> 'a list \<Rightarrow> nat \<Rightarrow> nat \<Rightarrow> nat" where
  "dist s1 s2 i j = lev (rev (take i s1)) (rev (take j s2))"


text \<open>
  \<open>calculateSimilarity\<close> and \<open>compareNames\<close>. The score is a quotient of lengths; it
  is modelled as an exact rational, as is the threshold 0.7.
\<close>

definition calculateSimilarity :: "'a list \<Rightarrow> 'a list \<Rightarrow> rat" where
  "calculateSimilarity s1 s2 =
     (if s1 = s2 then 1
      else
        (let longer = (if length s1 > length s2 then s1 else s2);
             shorter = (if length s1 > length s2 then s2 else s1)
         in if length longer = 0 then 1
            else if includes_str longer shorter then 9 / 10
            else (of_nat (length longer) - of_nat (editDistance longer shorter))
                   / of_nat (length longer)))"

definition compareNames :: "'a list \<Rightarrow> 'a list \<Rightarrow> bool" where
  "compareNames name1 name2 = (calculateSimilarity name1 name2 > 7 / 10)"

text \<open>
  \<open>normalizeArabicText\<close>. The Unicode tables behind \<open>normalize("NFKD")\<close> and
  \<open>toLowerCase()\<close> belong to the platform: they are the parameters \<open>nfkd\<close> and
  \<open>toLowerCase\<close>. The replacements and the trimming in between are the source's.
  A falsy argument (\<open>undefined\<close>, the empty string, 0, false) gives the empty string;
  a truthy value that is not a string has no method \<open>normalize\<close>, and the call throws.
\<close>

definition normalizeString :: "(jstring \<Rightarrow> jstring) \<Rightarrow> (jstring \<Rightarrow> jstring) \<Rightarrow> jstring \<Rightarrow> jstring" where
  "normalizeString nfkd toLowerCase s =
     toLowerCase (trim
       (map (\<lambda>c. if c = 0x649 then 0x64A else c)
         (map (\<lambda>c. if c = 0x629 then 0x647 else c)
           (map (\<lambda>c. if c = 0x623 \<or> c = 0x625 \<or> c = 0x622 then 0x627 else c)
             (filter (\<lambda>c. \<not> (0x300 \<le> c \<and> c \<le> 0x36F)) (nfkd s))))))"

definition normalizeArabicText ::
  "(jstring \<Rightarrow> jstring) \<Rightarrow> (jstring \<Rightarrow> jstring) \<Rightarrow> any option \<Rightarrow> error + jstring" where
  "normalizeArabicText nfkd toLowerCase arg =
     (case arg of
        None \<Rightarrow> Inr []
      | Some v \<Rightarrow>
          if \<not> truthy v then Inr []
          else (case v of
                  Str s \<Rightarrow> Inr (normalizeString nfkd toLowerCase s)
                | Num n \<Rightarrow> Inl TypeError
                | Bool b \<Rightarrow> Inl TypeError))"

function findStudentRowByName_loop ::
  "(jstring \<Rightarrow> jstring) \<Rightarrow> (jstring \<Rightarrow> jstring) \<Rightarrow> int \<Rightarrow> jstring \<Rightarrow> any list list \<Rightarrow> nat
     \<Rightarrow> error + int" where
  "findStudentRowByName_loop nfkd toLowerCase nameColumn nameToFind vals i =
     (if i < length vals then
        (if nameColumn < int (length (vals ! i)) then
           (case normalizeArabicText nfkd toLowerCase (at_index (vals ! i) nameColumn) of
              Inl e \<Rightarrow> Inl e
            | Inr cellName \<Rightarrow>
                if compareNames nameToFind cellName then Inr (int i)
                else findStudentRowByName_loop nfkd toLowerCase nameColumn nameToFind vals (Suc i))
         else findStudentRowByName_loop nfkd toLowerCase nameColumn nameToFind vals (Suc i))
      else Inr (- 1))"
  by pat_completeness auto
termination
  by (relation "measure (\<lambda>(nfkd, toLowerCase, nameColumn, nameToFind, vals, i). length vals - i)")
    auto

declare findStudentRowByName_loop.simps [simp del]

definition findStudentRowByName ::
  "(jstring \<Rightarrow> jstring) \<Rightarrow> (jstring \<Rightarrow> jstring) \<Rightarrow> WorksheetStructure option \<Rightarrow> jstring
     \<Rightarrow> any list list \<Rightarrow> error + int" where
  "findStudentRowByName nfkd toLowerCase worksheetStructure studentName vals =
     (case worksheetStructure of
        None \<Rightarrow> Inl NotInitialized
      | Some ws \<Rightarrow>
          (case normalizeArabicText nfkd toLowerCase (Some (Str studentName)) of
             Inl e \<Rightarrow> Inl e
           | Inr nameToFind \<Rightarrow>
               findStudentRowByName_loop nfkd toLowerCase (wsStudentNameColumn ws) nameToFind vals 1))"

text \<open>
  The name of a roster cell as the matcher reads it: the string of a string cell, the
  empty string for a missing or falsy cell. \<open>nameCell\<close> holds of the cells that have a
  name in this sense (a truthy number or boolean has none).
\<close>

fun nameCell :: "any option \<Rightarrow> bool" where
  "nameCell None = True"
| "nameCell (Some (Str s)) = True"
| "nameCell (Some (Num n)) = (n = 0)"
| "nameCell (Some (Bool b)) = (\<not> b)"

fun cellName :: "any option \<Rightarrow> jstring" where
  "cellName (Some (Str s)) = s"
| "cellName c = []"


text \<open>The normalised form of a name: the empty string is falsy and stays as it is.\<close>

definition normalizedName :: "(jstring \<Rightarrow> jstring) \<Rightarrow> (jstring \<Rightarrow> jstring) \<Rightarrow> jstring \<Rightarrow> jstring" where
  "normalizedName nfkd toLowerCase s = (if s = [] then [] else normalizeString nfkd toLowerCase s)"


section \<open>Student records\<close>

text \<open>
  \<open>Student\<close> and \<open>StudentMarks\<close> of the types module, as the extractors build them.
  A JavaScript number is modelled as an exact rational, \<open>null\<close> as \<open>None\<close>.
\<close>

record StudentMarks =
  fard1 :: "rat option"
  fard2 :: "rat option"
  fard3 :: "rat option"
  activities :: "rat option"

record Student =
  number :: rat
  name :: jstring
  marks :: StudentMarks

section \<open>The pattern-based extractor: distributing the marks\<close>

text \<open>
  \<open>parseInt(s, 10)\<close>: leading white space, an optional sign, then the longest run of
  digits; \<open>NaN\<close> (here \<open>None\<close>) when there is no digit. The value is exact (a double
  is, below 2^53).
\<close>

definition parseDigits :: "jstring \<Rightarrow> nat" where
  "parseDigits ds = foldl (\<lambda>a c. 10 * a + (c - 48)) 0 ds"

definition parseInt :: "jstring \<Rightarrow> int option" where
  "parseInt s =
     (let t = dropWhile isSpace s;
          negative = (t \<noteq> [] \<and> hd t = 45);
          u = (if t \<noteq> [] \<and> (hd t = 45 \<or> hd t = 43) then tl t else t);
          ds = takeWhile isDigit u
      in if ds = [] then None
         else Some (if negative then - int (parseDigits ds) else int (parseDigits ds)))"

text \<open>
  \<open>Math.min(4, Math.floor(markValues.length / studentEntries.length))\<close>. Without
  entries the quotient is \<open>Infinity\<close> (the minimum is 4) or \<open>NaN\<close> (no iteration of
  the inner loop, as with 0); the loop over the entries does not run then.
\<close>

definition expectedMarksPerStudent :: "nat \<Rightarrow> nat \<Rightarrow> nat" where
  "expectedMarksPerStudent marksLength entriesLength =
     (if entriesLength = 0 then (if marksLength = 0 then 0 else 4)
      else min 4 (marksLength div entriesLength))"

text \<open>
  The inner loop: \<open>n\<close> times, push \<open>markValues[markIndex++]\<close> if \<open>markIndex\<close> is
  inside the array.
\<close>

primrec takeMarks :: "nat \<Rightarrow> rat list \<Rightarrow> nat \<Rightarrow> rat list \<Rightarrow> rat list \<times> nat" where
  "takeMarks 0 markValues markIndex studentMarks = (studentMarks, markIndex)"
| "takeMarks (Suc n) markValues markIndex studentMarks =
     (if markIndex < length markValues
      then takeMarks n markValues (Suc markIndex) (studentMarks @ [markValues ! markIndex])
      else takeMarks n markValues markIndex studentMarks)"

text \<open>\<open>studentMarks[k] !== undefined ? studentMarks[k] : null\<close>\<close>

definition slot :: "rat list \<Rightarrow> nat \<Rightarrow> rat option" where
  "slot studentMarks k = (if k < length studentMarks then Some (studentMarks ! k) else None)"

definition marksOf :: "rat list \<Rightarrow> StudentMarks" where
  "marksOf studentMarks =
     \<lparr>fard1 = slot studentMarks 0, fard2 = slot studentMarks 1,
      fard3 = slot studentMarks 2, activities = slot studentMarks 3\<rparr>"

text \<open>The loop over the sorted entries, with the running \<open>markIndex\<close>.\<close>

fun distributeMarks :: "(rat \<times> jstring) list \<Rightarrow> rat list \<Rightarrow> nat \<Rightarrow> nat \<Rightarrow> Student list" where
  "distributeMarks [] markValues expected markIndex = []"
| "distributeMarks ((id', nm) # rest) markValues expected markIndex =
     (case takeMarks expected markValues markIndex [] of
        (studentMarks, markIndex') \<Rightarrow>
          \<lparr>number = id', name = nm, marks = marksOf studentMarks\<rparr>
            # distributeMarks rest markValues expected markIndex')"

text \<open>
  \<open>assignMarksToStudents\<close>. \<open>studentInfo\<close> is the list \<open>Object.entries\<close> yields (the
  keys are distinct). The entries are sorted by \<open>a.id - b.id\<close>, a stable ascending sort.
  If an id is \<open>NaN\<close> the comparator is no order and the result depends on the engine:
  the model returns \<open>None\<close>.
\<close>

definition assignMarksToStudents :: "(jstring \<times> jstring) list \<Rightarrow> rat list \<Rightarrow> Student list option" where
  "assignMarksToStudents studentInfo markValues =
     (if list_all (\<lambda>(id', nm). parseInt id' \<noteq> None) studentInfo then
        (let studentEntries =
               sort_key fst (map (\<lambda>(id', nm). (of_int (the (parseInt id')), nm)) studentInfo);
             expected = expectedMarksPerStudent (length markValues) (length studentEntries)
         in Some (distributeMarks studentEntries markValues expected 0))
      else None)"

text \<open>A key of \<open>studentInfo\<close>: a capture of \<open>\d+\<close>, a non-empty string of digits.\<close>

definition digitString :: "jstring \<Rightarrow> bool" where
  "digitString s = (s \<noteq> [] \<and> list_all isDigit s)"

text \<open>The entries with their ids parsed.\<close>

definition idsOf :: "(jstring \<times> jstring) list \<Rightarrow> (rat \<times> jstring) list" where
  "idsOf studentInfo = map (\<lambda>(id', nm). (of_nat (parseDigits id'), nm)) studentInfo"

text \<open>The marks a record holds, in the order of the slots.\<close>

fun assignedMarks :: "StudentMarks \<Rightarrow> rat list" where
  "assignedMarks m =
     (case fard1 m of None \<Rightarrow> [] | Some a \<Rightarrow> [a]) @ (case fard2 m of None \<Rightarrow> [] | Some a \<Rightarrow> [a]) @
     (case fard3 m of None \<Rightarrow> [] | Some a \<Rightarrow> [a]) @ (case activities m of None \<Rightarrow> [] | Some a \<Rightarrow> [a])"


section \<open>The table detection service\<close>

subsection \<open>Character classes and cells\<close>

text \<open>The class \<open>\w\<close> (it decides \<open>\b\<close>) and the Arabic block \<open>[\u0600-\u06FF]\<close>.\<close>

definition isWord :: "codeunit \<Rightarrow> bool" where
  "isWord c = ((48 \<le> c \<and> c \<le> 57) \<or> (65 \<le> c \<and> c \<le> 90) \<or> c = 95 \<or> (97 \<le> c \<and> c \<le> 122))"

definition isArabic :: "codeunit \<Rightarrow> bool" where
  "isArabic c = (0x600 \<le> c \<and> c \<le> 0x6FF)"

text \<open>
  \<open>GridPosition\<close> and \<open>TableCell\<close>. The fields \<open>text\<close> and \<open>value\<close> of the source are
  \<open>cellText\<close> and \<open>cellValue\<close> here; \<open>null\<close> is \<open>None\<close>.
\<close>

record GridPosition =
  row :: nat
  col :: nat

record TableCell =
  cellText :: jstring
  position :: GridPosition
  isNumeric :: bool
  cellValue :: "rat option"

subsection \<open>\<open>parseNumericValue\<close>\<close>

text \<open>
  \<open>parseFloat\<close> of an integer part and a fraction part, both strings of digits. The
  model takes the exact decimal value where the source has the double nearest to it: the
  two differ by that rounding for a number that no double holds exactly (for an integer,
  from 2^53 on). A number of one or two digits with at most two decimals, as the mark
  expressions capture it, is compared with 0 and with 20 alike in both.
\<close>

definition decimalValue :: "jstring \<Rightarrow> jstring \<Rightarrow> rat" where
  "decimalValue ip fp = of_nat (parseDigits ip) + of_nat (parseDigits fp) / 10 ^ length fp"

text \<open>The test \<open>/^\d+(\.\d+)?$/\<close>: all the leading digits, then nothing, or a period and digits only.\<close>

definition isSimpleNumber :: "jstring \<Rightarrow> bool" where
  "isSimpleNumber s =
     (let ip = takeWhile isDigit s; rest = dropWhile isDigit s
      in ip \<noteq> [] \<and>
         (rest = [] \<or> (hd rest = 46 \<and> tl rest \<noteq> [] \<and> list_all isDigit (tl rest))))"

text \<open>
  \<open>/(\d{1,2})[.,](\d{1,2})/\<close> at the start of a string: two digits if there are two and
  the separator and a digit follow, else one digit; the fraction takes two digits if it
  can. \<open>fractionAt\<close> is the part from the separator on and gives the fraction's digits.
\<close>

definition fractionAt :: "jstring \<Rightarrow> jstring option" where
  "fractionAt s =
     (case s of
        [] \<Rightarrow> None
      | c # r \<Rightarrow>
          if (c = 46 \<or> c = 44) \<and> r \<noteq> [] \<and> isDigit (hd r)
          then Some (takeWhile isDigit (take 2 r)) else None)"

definition markMatchAt :: "jstring \<Rightarrow> (jstring \<times> jstring) option" where
  "markMatchAt s =
     (if 2 \<le> length s \<and> list_all isDigit (take 2 s) \<and> fractionAt (drop 2 s) \<noteq> None
      then map_option (\<lambda>m2. (take 2 s, m2)) (fractionAt (drop 2 s))
      else if 1 \<le> length s \<and> list_all isDigit (take 1 s)
      then map_option (\<lambda>m2. (take 1 s, m2)) (fractionAt (drop 1 s))
      else None)"

text \<open>The first match of that expression, searching from the left.\<close>

fun findMarkMatch :: "jstring \<Rightarrow> (jstring \<times> jstring) option" where
  "findMarkMatch [] = None"
| "findMarkMatch (c # s) =
     (case markMatchAt (c # s) of Some m \<Rightarrow> Some m | None \<Rightarrow> findMarkMatch s)"

text \<open>
  \<open>parseNumericValue\<close>: commas become periods, the text is trimmed; a simple number is
  parsed as a whole, otherwise the first mark-like token anywhere in the text gives the
  value, otherwise the result is \<open>null\<close>.
\<close>

definition parseNumericValue :: "jstring \<Rightarrow> rat option" where
  "parseNumericValue txt =
     (let cleanedText = trim (map (\<lambda>c. if c = 44 then 46 else c) txt)
      in if isSimpleNumber cleanedText
         then Some (decimalValue (takeWhile isDigit cleanedText)
                      (drop 1 (dropWhile isDigit cleanedText)))
         else (case findMarkMatch cleanedText of
                 Some (m1, m2) \<Rightarrow> Some (decimalValue m1 m2)
               | None \<Rightarrow> None))"

subsection \<open>\<open>parseLine\<close>\<close>

text \<open>
  \<open>\b\<close> between the previous character (none at the start) and the rest of the string:
  exactly one of the two sides is a word character.
\<close>

definition wordBoundary :: "codeunit option \<Rightarrow> jstring \<Rightarrow> bool" where
  "wordBoundary prev s =
     ((case prev of None \<Rightarrow> False | Some c \<Rightarrow> isWord c) \<noteq>
      (case s of [] \<Rightarrow> False | c # r \<Rightarrow> isWord c))"

text \<open>
  \<open>/\b(\d{1,2}(?:[.,]\d{1,2})?)\b/g\<close>. At a position the expression can match a prefix of
  2 + 1 + 2, 2 + 1 + 1, 2, 1 + 1 + 2, 1 + 1 + 1 or 1 characters; backtracking tries them in
  that order and takes the first that ends at a word boundary. \<open>markTokenCandidates\<close>
  lists the lengths whose characters fit, in that order; \<open>markTokenAt\<close> adds the two
  boundaries; \<open>markTokens\<close> is the loop of \<open>exec\<close>, which resumes after each match.
\<close>

definition markTokenCandidates :: "jstring \<Rightarrow> nat list" where
  "markTokenCandidates s =
     concat (map (\<lambda>n1.
        if n1 \<le> length s \<and> list_all isDigit (take n1 s) then
          concat (map (\<lambda>n2.
            if n1 + 1 + n2 \<le> length s \<and> (s ! n1 = 46 \<or> s ! n1 = 44) \<and>
               list_all isDigit (take n2 (drop (n1 + 1) s))
            then [n1 + 1 + n2] else []) [2, 1]) @ [n1]
        else []) [2, 1])"

definition markTokenAt :: "codeunit option \<Rightarrow> jstring \<Rightarrow> nat option" where
  "markTokenAt prev s =
     (if wordBoundary prev s
      then List.find (\<lambda>n. wordBoundary (Some (s ! (n - 1))) (drop n s)) (markTokenCandidates s)
      else None)"

lemma markTokenCandidates_pos: "n \<in> set (markTokenCandidates s) \<Longrightarrow> 0 < n"
  by (auto simp: markTokenCandidates_def split: if_splits)

lemma markTokenAt_pos: "markTokenAt prev s = Some n \<Longrightarrow> 0 < n"
  by (auto simp: markTokenAt_def find_Some_iff split: if_splits
      intro: markTokenCandidates_pos [OF nth_mem])

function markTokens :: "codeunit option \<Rightarrow> jstring \<Rightarrow> jstring list" where
  "markTokens prev [] = []"
| "markTokens prev (c # s) =
     (case markTokenAt prev (c # s) of
        Some n \<Rightarrow> take n (c # s) # markTokens (Some ((c # s) ! (n - 1))) (drop n (c # s))
      | None \<Rightarrow> markTokens (Some c) s)"
  by pat_completeness auto
termination
  by (relation "measure (\<lambda>(prev, s). length s)") (auto dest: markTokenAt_pos)

text \<open>\<open>s.replace(pat, rep)\<close> with a string pattern: the first occurrence only.\<close>

fun replaceFirst :: "jstring \<Rightarrow> jstring \<Rightarrow> jstring \<Rightarrow> jstring" where
  "replaceFirst [] pat rep = (if pat = [] then rep else [])"
| "replaceFirst (c # s) pat rep =
     (if prefix pat (c # s) then rep @ drop (length pat) (c # s)
      else c # replaceFirst s pat rep)"

text \<open>\<open>s.split(sep)\<close> for a one-character separator: the pieces between its occurrences.\<close>

fun splitOn :: "codeunit \<Rightarrow> jstring \<Rightarrow> jstring list" where
  "splitOn sep [] = [[]]"
| "splitOn sep (c # s) =
     (if c = sep then [] # splitOn sep s
      else (case splitOn sep s of l # ls \<Rightarrow> (c # l) # ls | [] \<Rightarrow> [[c]]))"

text \<open>
  \<open>line.split(/\s{2,}|\|/)\<close>: a separator is a maximal run of two or more white-space
  characters, or one pipe. \<open>cur\<close> is the piece read so far.
\<close>

function splitSegments :: "jstring \<Rightarrow> jstring \<Rightarrow> jstring list" where
  "splitSegments cur [] = [cur]"
| "splitSegments cur (c # s) =
     (if isSpace c \<and> s \<noteq> [] \<and> isSpace (hd s) then cur # splitSegments [] (dropWhile isSpace s)
      else if c = 124 then cur # splitSegments [] s
      else splitSegments (cur @ [c]) s)"
  by pat_completeness auto
termination
  by (relation "measure (\<lambda>(cur, s). length s)")
    (auto simp: length_dropWhile_le less_Suc_eq_le)

text \<open>\<open>s.trim().length > 0\<close>\<close>

definition nonBlank :: "jstring \<Rightarrow> bool" where
  "nonBlank s = (length (trim s) > 0)"

text \<open>
  The loop over the segments: a segment that is empty after trimming is skipped, the
  others become cells; \<open>col\<close> is the index of the segment.
\<close>

fun cellsOf :: "nat \<Rightarrow> nat \<Rightarrow> jstring list \<Rightarrow> TableCell list" where
  "cellsOf rowIndex colIndex [] = []"
| "cellsOf rowIndex colIndex (seg # segs) =
     (let txt = trim seg
      in if length txt = 0 then cellsOf rowIndex (Suc colIndex) segs
         else (let numericValue = parseNumericValue txt
               in \<lparr>cellText = txt, position = \<lparr>row = rowIndex, col = colIndex\<rparr>,
                   isNumeric = (numericValue \<noteq> None), cellValue = numericValue\<rparr>
                    # cellsOf rowIndex (Suc colIndex) segs))"

text \<open>
  The segments of a line: the split on runs of spaces and pipes; if that gives at most
  one segment and the line has mark tokens, each token's first occurrence is replaced by
  a pipe, the line is split at the pipes, and the tokens are appended.
\<close>

definition lineSegments :: "jstring \<Rightarrow> jstring list" where
  "lineSegments line =
     (let segments = filter nonBlank (splitSegments [] line)
      in if length segments \<le> 1 then
           (let marks = markTokens None line
            in if length marks > 0 then
                 (let textContent = foldl (\<lambda>t mark. replaceFirst t mark [124]) line marks
                  in filter nonBlank (splitOn 124 textContent) @ marks)
               else segments)
         else segments)"

definition parseLine :: "jstring \<Rightarrow> nat \<Rightarrow> TableCell list" where
  "parseLine line rowIndex = cellsOf rowIndex 0 (lineSegments line)"

subsection \<open>\<open>refineGrid\<close>\<close>

text \<open>
  Every row is padded with empty cells to the longest row's length, and every cell's
  position is set to its place in the grid.
\<close>

definition emptyCell :: "nat \<Rightarrow> nat \<Rightarrow> TableCell" where
  "emptyCell rowIndex colIndex =
     \<lparr>cellText = [], position = \<lparr>row = rowIndex, col = colIndex\<rparr>,
      isNumeric = False, cellValue = None\<rparr>"

definition refineGrid :: "TableCell list list \<Rightarrow> TableCell list list" where
  "refineGrid grid =
     (if length grid = 0 then grid
      else
        (let maxColumns = foldl (\<lambda>m r. max m (length r)) 0 grid
         in map (\<lambda>(rowIndex, r).
                   map (\<lambda>(colIndex, cell). cell\<lparr>position := \<lparr>row = rowIndex, col = colIndex\<rparr>\<rparr>)
                       (enumerate 0 r)
                   @ map (emptyCell rowIndex) [length r..<maxColumns])
                (enumerate 0 grid)))"

subsection \<open>The structure of the table\<close>

text \<open>The keywords of the source, as code units.\<close>

definition kw_raqm :: jstring where "kw_raqm = [0x631, 0x642, 0x645]"
definition kw_ism :: jstring where "kw_ism = [0x627, 0x633, 0x645]"
definition kw_alfard :: jstring where "kw_alfard = [0x627, 0x644, 0x641, 0x631, 0x636]"
definition kw_rt :: jstring where "kw_rt = [0x631, 0x2E, 0x62A]"
definition kw_tilmidh :: jstring where "kw_tilmidh = [0x627, 0x644, 0x62A, 0x644, 0x645, 0x64A, 0x630]"
definition kw_alnuqta :: jstring where "kw_alnuqta = [0x627, 0x644, 0x646, 0x642, 0x637, 0x629]"
definition kw_almadda :: jstring where "kw_almadda = [0x627, 0x644, 0x645, 0x627, 0x62F, 0x629]"
definition kw_alanshita :: jstring where "kw_alanshita = [0x627, 0x644, 0x623, 0x646, 0x634, 0x637, 0x629]"
definition kw_fard :: jstring where "kw_fard = [0x641, 0x631, 0x636]"
definition kw_nuqta :: jstring where "kw_nuqta = [0x646, 0x642, 0x637, 0x629]"
definition kw_nashat :: jstring where "kw_nashat = [0x646, 0x634, 0x627, 0x637]"

lemmas kw_defs = kw_raqm_def kw_ism_def kw_alfard_def kw_rt_def kw_tilmidh_def kw_alnuqta_def
  kw_almadda_def kw_alanshita_def kw_fard_def kw_nuqta_def kw_nashat_def

text \<open>\<open>xs.join(sep)\<close>\<close>

fun joinWith :: "jstring \<Rightarrow> jstring list \<Rightarrow> jstring" where
  "joinWith sep [] = []"
| "joinWith sep [x] = x"
| "joinWith sep (x # y # r) = x @ sep @ joinWith sep (y # r)"

text \<open>
  \<open>findHeaderRow\<close>: the first of the first five rows whose joined text contains an
  indicator, else row 0. \<open>toLowerCase\<close> is the platform's case mapping, a parameter.
\<close>

definition headerIndicators :: "jstring list" where
  "headerIndicators = [kw_raqm, kw_ism, kw_tilmidh, kw_alfard, kw_alnuqta, kw_almadda, kw_alanshita]"

definition isHeaderRow :: "(jstring \<Rightarrow> jstring) \<Rightarrow> TableCell list \<Rightarrow> bool" where
  "isHeaderRow toLowerCase r =
     (let rowText = toLowerCase (joinWith [32] (map cellText r))
      in list_ex (\<lambda>indicator. includes_str rowText (toLowerCase indicator)) headerIndicators)"

definition findHeaderRow :: "(jstring \<Rightarrow> jstring) \<Rightarrow> TableCell list list \<Rightarrow> nat" where
  "findHeaderRow toLowerCase grid =
     (case List.find (\<lambda>rowIndex. isHeaderRow toLowerCase (grid ! rowIndex))
             [0..<min 5 (length grid)] of
        Some rowIndex \<Rightarrow> rowIndex
      | None \<Rightarrow> 0)"

text \<open>
  \<open>identifyColumns\<close>, first pass: each cell of the header row may set the id column, the
  name column, and add a mark column; the three tests are independent. The state is
  \<open>(studentIdColumn, studentNameColumn, markColumns)\<close>, -1 standing for "not found".
\<close>

definition headerStep ::
  "(jstring \<Rightarrow> jstring) \<Rightarrow> TableCell list \<Rightarrow> nat \<Rightarrow> int \<times> int \<times> nat list \<Rightarrow> int \<times> int \<times> nat list" where
  "headerStep toLowerCase hdr colIndex st =
     (case st of (studentIdColumn, studentNameColumn, markColumns) \<Rightarrow>
        (let cellText' = toLowerCase (cellText (hdr ! colIndex))
         in (if includes_str cellText' kw_raqm \<or> includes_str cellText' kw_rt
             then int colIndex else studentIdColumn,
             if includes_str cellText' kw_ism \<or> includes_str cellText' kw_tilmidh
             then int colIndex else studentNameColumn,
             if includes_str cellText' kw_fard \<or> includes_str cellText' kw_alfard \<or>
                includes_str cellText' kw_nuqta \<or> includes_str cellText' kw_alanshita \<or>
                includes_str cellText' kw_nashat
             then markColumns @ [colIndex] else markColumns)))"

definition headerPass ::
  "(jstring \<Rightarrow> jstring) \<Rightarrow> TableCell list list \<Rightarrow> nat \<Rightarrow> int \<times> int \<times> nat list" where
  "headerPass toLowerCase grid headerRow =
     (if headerRow < length grid
      then fold (headerStep toLowerCase (grid ! headerRow)) [0..<length (grid ! headerRow)]
             (- 1, - 1, [])
      else (- 1, - 1, []))"

text \<open>
  The four counters per column of the second pass, arrays of the width of the first row.
  \<open>counts[colIndex]++\<close> beyond the array would add an entry \<open>NaN\<close>, which no later test
  accepts (\<open>NaN > 0\<close> is false) and no later read reaches: \<open>increment\<close> leaves the array
  as it is there.
\<close>

record ColumnCounts =
  numericCounts :: "nat list"
  arabicTextCounts :: "nat list"
  idPatternCounts :: "nat list"
  markRangeCounts :: "nat list"

definition increment :: "nat list \<Rightarrow> nat \<Rightarrow> nat list" where
  "increment counts colIndex =
     (if colIndex < length counts then counts[colIndex := Suc (counts ! colIndex)] else counts)"

text \<open>\<open>/\d{7,}/\<close> and \<open>/[Gg]\d{7,}/\<close>, anywhere in the text.\<close>

fun hasDigitRun :: "nat \<Rightarrow> jstring \<Rightarrow> bool" where
  "hasDigitRun n [] = (n = 0)"
| "hasDigitRun n (c # s) = (n \<le> length (takeWhile isDigit (c # s)) \<or> hasDigitRun n s)"

fun hasGDigitRun :: "nat \<Rightarrow> jstring \<Rightarrow> bool" where
  "hasGDigitRun n [] = False"
| "hasGDigitRun n (c # s) =
     (((c = 71 \<or> c = 103) \<and> n \<le> length (takeWhile isDigit s)) \<or> hasGDigitRun n s)"

text \<open>The body of the counting loop for one cell, and the loop over the content rows.\<close>

definition countCell :: "nat \<times> TableCell \<Rightarrow> ColumnCounts \<Rightarrow> ColumnCounts" where
  "countCell p counts =
     (case p of (colIndex, cell) \<Rightarrow>
        (let c1 = (if isNumeric cell then
                     (let c0 = counts\<lparr>numericCounts := increment (numericCounts counts) colIndex\<rparr>
                      in case cellValue cell of
                           Some v \<Rightarrow>
                             if v \<ge> 0 \<and> v \<le> 20
                             then c0\<lparr>markRangeCounts := increment (markRangeCounts c0) colIndex\<rparr>
                             else c0
                         | None \<Rightarrow> c0)
                   else counts);
             c2 = (if list_ex isArabic (cellText cell)
                   then c1\<lparr>arabicTextCounts := increment (arabicTextCounts c1) colIndex\<rparr>
                   else c1)
         in if hasGDigitRun 7 (cellText cell) \<or> hasDigitRun 7 (cellText cell)
            then c2\<lparr>idPatternCounts := increment (idPatternCounts c2) colIndex\<rparr>
            else c2))"

definition countRows :: "nat \<Rightarrow> TableCell list list \<Rightarrow> ColumnCounts" where
  "countRows n contentRows =
     fold (\<lambda>r counts. fold countCell (enumerate 0 r) counts) contentRows
       \<lparr>numericCounts = replicate n 0, arabicTextCounts = replicate n 0,
        idPatternCounts = replicate n 0, markRangeCounts = replicate n 0\<rparr>"

text \<open>
  \<open>counts.map((count, index) => ({index, count})).filter(c => c.count > 0 && \<dots>)
  .sort((a, b) => b.count - a.count)\<close>: the columns with a positive count, the highest
  count first (the sort is stable).
\<close>

definition candidates :: "nat list \<Rightarrow> (nat \<Rightarrow> bool) \<Rightarrow> (nat \<times> nat) list" where
  "candidates counts keep =
     sort_key (\<lambda>(index, cnt). - int cnt)
       (filter (\<lambda>(index, cnt). cnt > 0 \<and> keep index) (enumerate 0 counts))"

text \<open>
  The second pass, entered when the first left something open. The threshold
  \<open>markRangeCounts[colIndex] > totalRows * 0.3\<close> is compared exactly.
\<close>

definition contentPass ::
  "TableCell list list \<Rightarrow> nat \<Rightarrow> nat \<Rightarrow> int \<times> int \<times> nat list \<Rightarrow> int \<times> int \<times> nat list" where
  "contentPass grid headerRow width st =
     (case st of (studentIdColumn0, studentNameColumn0, markColumns0) \<Rightarrow>
        (let contentRows = drop (headerRow + 1) grid;
             counts = countRows width contentRows;
             studentIdColumn =
               (if studentIdColumn0 = - 1 then
                  (case candidates (idPatternCounts counts) (\<lambda>index. True) of
                     c # cs \<Rightarrow> int (fst c)
                   | [] \<Rightarrow> 0)
                else studentIdColumn0);
             studentNameColumn =
               (if studentNameColumn0 = - 1 then
                  (case candidates (arabicTextCounts counts) (\<lambda>index. int index \<noteq> studentIdColumn) of
                     c # cs \<Rightarrow> int (fst c)
                   | [] \<Rightarrow> - 1)
                else studentNameColumn0);
             markColumns =
               (if length markColumns0 = 0 then
                  (let totalRows = length contentRows;
                       inRange = filter (\<lambda>colIndex.
                           \<not> (int colIndex = studentIdColumn \<or> int colIndex = studentNameColumn) \<and>
                           (of_nat (markRangeCounts counts ! colIndex) :: rat) > of_nat totalRows * 3 / 10)
                         [0..<width]
                   in if length inRange = 0
                      then filter (\<lambda>colIndex.
                             \<not> (int colIndex = studentIdColumn \<or> int colIndex = studentNameColumn) \<and>
                             numericCounts counts ! colIndex > 0) [0..<width]
                      else inRange)
                else markColumns0)
         in (studentIdColumn, studentNameColumn, markColumns)))"

text \<open>
  \<open>identifyColumns\<close>: the two passes (\<open>bothPasses\<close>: the second runs when the first
  left the id column, the name column or the mark columns open), then \<open>finalizeColumns\<close>:
  the defaults 0 and 1, the sort of the mark columns, and the remaining columns if there
  is still no mark column. The second pass reads \<open>grid[0]\<close>; the caller never passes an
  empty grid (\<open>None\<close> stands for the exception that would follow).
\<close>

definition bothPasses ::
  "(jstring \<Rightarrow> jstring) \<Rightarrow> TableCell list list \<Rightarrow> nat \<Rightarrow> nat \<Rightarrow> int \<times> int \<times> nat list" where
  "bothPasses toLowerCase grid headerRow width =
     (let st0 = headerPass toLowerCase grid headerRow
      in case st0 of (studentIdColumn, studentNameColumn, markColumns) \<Rightarrow>
           if studentIdColumn = - 1 \<or> studentNameColumn = - 1 \<or> length markColumns = 0
           then contentPass grid headerRow width st0 else st0)"

definition finalizeColumns :: "nat \<Rightarrow> int \<times> int \<times> nat list \<Rightarrow> int \<times> int \<times> nat list" where
  "finalizeColumns width st =
     (case st of (studentIdColumn1, studentNameColumn1, markColumns1) \<Rightarrow>
        (let studentIdColumn = (if studentIdColumn1 = - 1 then 0 else studentIdColumn1);
             studentNameColumn = (if studentNameColumn1 = - 1 then 1 else studentNameColumn1);
             sortedMarks = sort markColumns1;
             markColumns =
               (if length sortedMarks = 0
                then filter (\<lambda>colIndex. int colIndex \<noteq> studentIdColumn \<and>
                                         int colIndex \<noteq> studentNameColumn) [0..<width]
                else sortedMarks)
         in (studentIdColumn, studentNameColumn, markColumns)))"

definition identifyColumns ::
  "(jstring \<Rightarrow> jstring) \<Rightarrow> TableCell list list \<Rightarrow> nat \<Rightarrow> (int \<times> int \<times> nat list) option" where
  "identifyColumns toLowerCase grid headerRow =
     (case grid of
        [] \<Rightarrow> None
      | firstRow # otherRows \<Rightarrow>
          Some (finalizeColumns (length firstRow)
                  (bothPasses toLowerCase grid headerRow (length firstRow))))"

text \<open>\<open>TableStructure\<close> and \<open>identifyTableStructure\<close>.\<close>

record TableStructure =
  headerRow :: nat
  studentIdColumn :: int
  studentNameColumn :: int
  markColumns :: "nat list"
  rowCount :: nat
  colCount :: nat
  cells :: "TableCell list list"

definition identifyTableStructure ::
  "(jstring \<Rightarrow> jstring) \<Rightarrow> TableCell list list \<Rightarrow> TableStructure option" where
  "identifyTableStructure toLowerCase grid =
     (if length grid = 0 then None
      else
        (let hr = findHeaderRow toLowerCase grid
         in case identifyColumns toLowerCase grid hr of
              None \<Rightarrow> None
            | Some (i, n, m) \<Rightarrow>
                Some \<lparr>headerRow = hr, studentIdColumn = i, studentNameColumn = n, markColumns = m,
                      rowCount = length grid, colCount = length (hd grid), cells = grid\<rparr>))"

subsection \<open>\<open>createPreliminaryGrid\<close> and \<open>detectTable\<close>\<close>

text \<open>\<open>/^\s*\d+\s/\<close>\<close>

definition startsWithNumber :: "jstring \<Rightarrow> bool" where
  "startsWithNumber s =
     (let t = dropWhile isSpace s; r = dropWhile isDigit t
      in t \<noteq> [] \<and> isDigit (hd t) \<and> r \<noteq> [] \<and> isSpace (hd r))"

text \<open>
  The start of the table: the first line with a header keyword, else the line before the
  first numbered line, else none.
\<close>

definition dataStartLine :: "jstring list \<Rightarrow> nat option" where
  "dataStartLine lines =
     (case List.find (\<lambda>i. includes_str (lines ! i) kw_raqm \<or> includes_str (lines ! i) kw_ism \<or>
                           includes_str (lines ! i) kw_alfard \<or> includes_str (lines ! i) kw_rt)
             [0..<length lines] of
        Some i \<Rightarrow> Some i
      | None \<Rightarrow>
          (case List.find (\<lambda>i. startsWithNumber (lines ! i)) [0..<length lines] of
             Some i \<Rightarrow> Some (max 0 (i - 1))
           | None \<Rightarrow> None))"

text \<open>\<open>/\d{1,2}[.,]\d{2}/\<close>, anywhere in the line: a digit, a separator, two digits.\<close>

fun hasMarkPattern :: "jstring \<Rightarrow> bool" where
  "hasMarkPattern (a # b # c # d # r) =
     ((isDigit a \<and> (b = 46 \<or> b = 44) \<and> isDigit c \<and> isDigit d) \<or> hasMarkPattern (b # c # d # r))"
| "hasMarkPattern s = False"

text \<open>The four tests on a trimmed line that make it a table row.\<close>

definition isTableRow :: "jstring \<Rightarrow> bool" where
  "isTableRow line =
     ((line \<noteq> [] \<and> isDigit (hd line)) \<or>
      (line \<noteq> [] \<and> hd line = 124 \<and>
         (let r = dropWhile isSpace (tl line) in r \<noteq> [] \<and> isDigit (hd r))) \<or>
      (line \<noteq> [] \<and> list_all (\<lambda>c. isArabic c \<or> isSpace c) line) \<or>
      hasMarkPattern line)"

text \<open>
  The rows of the table, and the looser rule that replaces them when fewer than five of
  more than ten lines qualify.
\<close>

definition tableRowIndices :: "jstring list \<Rightarrow> nat list" where
  "tableRowIndices processedLines =
     (let found = filter (\<lambda>i. let line = trim (processedLines ! i)
                               in length line \<noteq> 0 \<and> isTableRow line)
                    [0..<length processedLines]
      in if length found < 5 \<and> length processedLines > 10
         then filter (\<lambda>i. let line = trim (processedLines ! i)
                           in \<not> (length line > 100 \<or> length line < 2) \<and>
                              (list_ex isArabic line \<or> list_ex isDigit line))
                [0..<length processedLines]
         else found)"

definition createPreliminaryGrid :: "jstring list \<Rightarrow> TableCell list list" where
  "createPreliminaryGrid lines =
     (case dataStartLine lines of
        None \<Rightarrow> []
      | Some start \<Rightarrow>
          (let processedLines = drop start lines
           in refineGrid
                (map (\<lambda>(rowIndex, lineIndex). parseLine (processedLines ! lineIndex) rowIndex)
                   (enumerate 0 (tableRowIndices processedLines)))))"

definition detectTable :: "(jstring \<Rightarrow> jstring) \<Rightarrow> jstring list \<Rightarrow> TableStructure option" where
  "detectTable toLowerCase lines =
     (let preliminaryGrid = createPreliminaryGrid lines
      in if length preliminaryGrid = 0 then None
         else identifyTableStructure toLowerCase preliminaryGrid)"

subsection \<open>\<open>extractStudentData\<close>\<close>

text \<open>
  \<open>parseFloat(v.toFixed(2))\<close>: the value rounded to two decimals. A value with at most
  two decimals is unchanged, in the source and in the model. For a value with more
  decimals the model rounds the exact decimal, half up, where the source rounds the
  double nearest to it, so that the two can differ in the last digit on a tie (the text
  1.005 gives 1 in the source and 1.01 here).
\<close>

definition toFixed2 :: "rat \<Rightarrow> rat" where
  "toFixed2 v = of_int (round (v * 100)) / 100"

text \<open>The \<open>switch\<close> on the index of the mark column, and the body of the loop over the mark columns.\<close>

definition setMark :: "nat \<Rightarrow> rat \<Rightarrow> StudentMarks \<Rightarrow> StudentMarks" where
  "setMark markIndex markValue m =
     (if markIndex = 0 then m\<lparr>fard1 := Some markValue\<rparr>
      else if markIndex = 1 then m\<lparr>fard2 := Some markValue\<rparr>
      else if markIndex = 2 then m\<lparr>fard3 := Some markValue\<rparr>
      else if markIndex = 3 then m\<lparr>activities := Some markValue\<rparr>
      else m)"

definition markStep :: "TableCell list \<Rightarrow> nat \<times> nat \<Rightarrow> StudentMarks \<Rightarrow> StudentMarks" where
  "markStep r p m =
     (case p of (markIndex, colIndex) \<Rightarrow>
        if colIndex < length r then
          (let markCell = r ! colIndex
           in case cellValue markCell of
                Some v \<Rightarrow> if isNumeric markCell then setMark markIndex (toFixed2 v) m else m
              | None \<Rightarrow> m)
        else m)"

text \<open>
  One row after the header: skipped (\<open>None\<close>) when neither the id cell nor the name cell
  has text. \<open>numberToString\<close> is the platform's printing of a number, used for the
  placeholder name.
\<close>

definition studentOfRow :: "(rat \<Rightarrow> jstring) \<Rightarrow> TableStructure \<Rightarrow> nat \<Rightarrow> Student option" where
  "studentOfRow numberToString ts rowIndex =
     (let r = cells ts ! rowIndex;
          idCell = at_index r (studentIdColumn ts);
          nameCell = at_index r (studentNameColumn ts);
          idText = (case idCell of None \<Rightarrow> [] | Some c \<Rightarrow> cellText c);
          nameText = (case nameCell of None \<Rightarrow> [] | Some c \<Rightarrow> cellText c)
      in if idText = [] \<and> nameText = [] then None
         else
           (let rowNumber = of_nat (rowIndex - headerRow ts);
                studentId =
                  (case idCell of
                     None \<Rightarrow> rowNumber
                   | Some c \<Rightarrow>
                       (case (if isNumeric c then cellValue c else None) of
                          Some v \<Rightarrow> v
                        | None \<Rightarrow>
                            if cellText c \<noteq> [] then
                              (let numericPart = filter isDigit (cellText c)
                               in if length numericPart > 0 then of_nat (parseDigits numericPart)
                                  else rowNumber)
                            else rowNumber));
                studentName =
                  (if nameText \<noteq> [] then nameText else ascii ''Student '' @ numberToString studentId)
            in Some \<lparr>number = studentId, name = studentName,
                     marks = fold (markStep r) (enumerate 0 (markColumns ts))
                               \<lparr>fard1 = None, fard2 = None, fard3 = None, activities = None\<rparr>\<rparr>))"

definition extractStudentData :: "(rat \<Rightarrow> jstring) \<Rightarrow> TableStructure \<Rightarrow> Student list" where
  "extractStudentData numberToString ts =
     List.map_filter (studentOfRow numberToString ts) [headerRow ts + 1..<length (cells ts)]"


subsection \<open>The numeric classification, in words\<close>

text \<open>The segment with its decimal commas replaced by periods, trimmed.\<close>

definition cleaned :: "jstring \<Rightarrow> jstring" where
  "cleaned s = trim (map (\<lambda>c. if c = 44 then 46 else c) s)"

text \<open>A plain integer or decimal: digits, optionally followed by a period and digits.\<close>

definition plainDecimal :: "jstring \<Rightarrow> bool" where
  "plainDecimal s =
     (\<exists>ip fp. ip \<noteq> [] \<and> list_all isDigit ip \<and>
        (s = ip \<or> (fp \<noteq> [] \<and> list_all isDigit fp \<and> s = ip @ [46] @ fp)))"

text \<open>A digit, a period or comma, and a digit in a row, somewhere in the string.\<close>

definition containsMarkToken :: "jstring \<Rightarrow> bool" where
  "containsMarkToken s =
     (\<exists>u a b c v. s = u @ a # b # c # v \<and> isDigit a \<and> (b = 46 \<or> b = 44) \<and> isDigit c)"

text \<open>
  What holds of every cell of the grid: it is numeric exactly when its cleaned text is a
  plain decimal or contains a mark-like token, and then, and only then, it has a value.
\<close>

definition numericAsParsed :: "TableCell \<Rightarrow> bool" where
  "numericAsParsed cell =
     (isNumeric cell = (plainDecimal (cleaned (cellText cell)) \<or> containsMarkToken (cleaned (cellText cell)))
      \<and> isNumeric cell = (cellValue cell \<noteq> None)
      \<and> cellValue cell = parseNumericValue (cellText cell))"


subsection \<open>Invariants and examples of the structure identifier\<close>

text \<open>
  The state of the column search over a grid of width \<open>w\<close>: the id column and the name
  column are open (-1) or columns of the grid, the mark columns are columns of the grid in
  strictly ascending order.
\<close>

definition columnsOk :: "nat \<Rightarrow> int \<times> int \<times> nat list \<Rightarrow> bool" where
  "columnsOk w st =
     (case st of (i, n, m) \<Rightarrow>
        (i = - 1 \<or> (0 \<le> i \<and> i < int w)) \<and> (n = - 1 \<or> (0 \<le> n \<and> n < int w)) \<and>
        sorted_wrt (<) m \<and> list_all (\<lambda>c. c < w) m)"

text \<open>The four counter arrays have the width \<open>n\<close>.\<close>

definition countsWidth :: "nat \<Rightarrow> ColumnCounts \<Rightarrow> bool" where
  "countsWidth n counts =
     (length (numericCounts counts) = n \<and> length (arabicTextCounts counts) = n \<and>
      length (idPatternCounts counts) = n \<and> length (markRangeCounts counts) = n)"

text \<open>Every row is as long as the first.\<close>

definition rectangular :: "'a list list \<Rightarrow> bool" where
  "rectangular grid = list_all (\<lambda>r. length r = length (hd grid)) grid"

text \<open>The three lines of Scenario A of the specification.\<close>

definition scenarioA :: "jstring list" where
  "scenarioA =
     [kw_raqm @ ascii '' '' @ kw_ism @ ascii '' '' @ kw_tilmidh @ ascii '' '' @ kw_alfard
        @ ascii ''1 '' @ kw_alfard @ ascii ''2'',
      ascii ''1 '' @ [0x623, 0x62D, 0x645, 0x62F] @ ascii '' 15.50 12.00'',
      ascii ''2 '' @ [0x633, 0x639, 0x64A, 0x62F] @ ascii '' 18.00 09.50'']"


section \<open>The pattern-based and the basic extractor\<close>

subsection \<open>\<open>findStudentSection\<close>\<close>

text \<open>The other keywords of the OCR service, as code units.\<close>

definition kw_ismTilmidh :: jstring where
  "kw_ismTilmidh = [0x627, 0x633, 0x645, 0x20, 0x627, 0x644, 0x62A, 0x644, 0x645, 0x64A, 0x630]"
definition kw_tawqi :: jstring where "kw_tawqi = [0x62A, 0x648, 0x642, 0x64A, 0x639]"
definition kw_alustadh :: jstring where "kw_alustadh = [0x627, 0x644, 0x623, 0x633, 0x62A, 0x627, 0x630]"
definition kw_almudir :: jstring where "kw_almudir = [0x627, 0x644, 0x645, 0x62F, 0x64A, 0x631]"
definition kw_mulahadha :: jstring where "kw_mulahadha = [0x645, 0x644, 0x627, 0x62D, 0x638, 0x629]"
definition kw_tarikh :: jstring where "kw_tarikh = [0x62A, 0x627, 0x631, 0x64A, 0x62E]"
definition kw_almawsim :: jstring where "kw_almawsim = [0x627, 0x644, 0x645, 0x648, 0x633, 0x645]"
definition kw_addirasi :: jstring where "kw_addirasi = [0x627, 0x644, 0x62F, 0x631, 0x627, 0x633, 0x64A]"
definition kw_almamlaka :: jstring where "kw_almamlaka = [0x627, 0x644, 0x645, 0x645, 0x644, 0x643, 0x629]"
definition kw_wizara :: jstring where "kw_wizara = [0x648, 0x632, 0x627, 0x631, 0x629]"
definition kw_talib :: jstring where "kw_talib = [0x637, 0x627, 0x644, 0x628, 0x20]"

text \<open>The test for a header line of the student list, and the test for the end of the list.\<close>

definition isStudentHeader :: "jstring \<Rightarrow> bool" where
  "isStudentHeader line =
     (includes_str line kw_ismTilmidh \<or> includes_str line kw_rt \<or>
      (includes_str line kw_raqm \<and> includes_str line kw_ism))"

definition isSectionEnd :: "jstring list \<Rightarrow> nat \<Rightarrow> nat \<Rightarrow> bool" where
  "isSectionEnd lines studentSectionStart i =
     (includes_str (lines ! i) kw_tawqi \<or> includes_str (lines ! i) kw_alustadh \<or>
      includes_str (lines ! i) kw_almudir \<or> includes_str (lines ! i) kw_mulahadha \<or>
      (i > studentSectionStart + 5 \<and> length (trim (lines ! i)) = 0 \<and>
       i + 1 < length lines \<and> length (trim (lines ! (i + 1))) = 0))"

text \<open>
  \<open>findStudentSection\<close>: from the first header line, else from the first numbered line,
  up to the first end indicator after it; \<open>null\<close> when there is no start.
\<close>

definition findStudentSection :: "(jstring \<Rightarrow> jstring) \<Rightarrow> jstring list \<Rightarrow> jstring list option" where
  "findStudentSection toLowerCase lines =
     (let studentSectionStart =
            (case List.find (\<lambda>i. isStudentHeader (toLowerCase (lines ! i))) [0..<length lines] of
               Some i \<Rightarrow> Some i
             | None \<Rightarrow> List.find (\<lambda>i. startsWithNumber (lines ! i)) [0..<length lines])
      in case studentSectionStart of
           None \<Rightarrow> None
         | Some start \<Rightarrow>
             (let studentSectionEnd =
                    (case List.find (isSectionEnd lines start) [start + 1..<length lines] of
                       Some i \<Rightarrow> i
                     | None \<Rightarrow> length lines)
              in Some (take (studentSectionEnd - start) (drop start lines))))"

subsection \<open>\<open>extractStudentInfoFromSection\<close>\<close>

text \<open>
  The object \<open>studentInfo\<close> is the list of its properties in the order of their creation.
  \<open>studentInfo[id] = v\<close> overwrites the property if there is one and adds it at the end
  otherwise.
\<close>

fun setProperty :: "(jstring \<times> jstring) list \<Rightarrow> jstring \<Rightarrow> jstring \<Rightarrow> (jstring \<times> jstring) list" where
  "setProperty [] k v = [(k, v)]"
| "setProperty ((k', v') # r) k v =
     (if k' = k then (k, v) # r else (k', v') # setProperty r k v)"

text \<open>
  \<open>Object.entries\<close> and \<open>Object.keys\<close> list the array indices first, in ascending
  order, then the other keys in the order of their creation. An array index is the
  canonical decimal form of an integer below 2^32 - 1.
\<close>

definition isArrayIndex :: "jstring \<Rightarrow> bool" where
  "isArrayIndex k =
     (k \<noteq> [] \<and> list_all isDigit k \<and> (k = [48] \<or> hd k \<noteq> 48) \<and> parseDigits k < 2 ^ 32 - 1)"

definition objectEntries :: "(jstring \<times> jstring) list \<Rightarrow> (jstring \<times> jstring) list" where
  "objectEntries obj =
     sort_key (\<lambda>(k, v). parseDigits k) (filter (\<lambda>(k, v). isArrayIndex k) obj)
     @ filter (\<lambda>(k, v). \<not> isArrayIndex k) obj"

text \<open>
  \<open>/^\s*(\d+)\s*[\|\s]*([\u0600-\u06FF\s]+)/\<close>: the leading digits, the run of pipes and
  white space after them, and then either an Arabic character, where the second group is
  the longest run of Arabic characters and white space from there, or, after
  backtracking into the run, the second group is the last white-space character of the
  run. The result is the two groups.
\<close>

definition isBarOrSpace :: "codeunit \<Rightarrow> bool" where
  "isBarOrSpace c = (c = 124 \<or> isSpace c)"

definition isArabicOrSpace :: "codeunit \<Rightarrow> bool" where
  "isArabicOrSpace c = (isArabic c \<or> isSpace c)"

definition numberThenName :: "jstring \<Rightarrow> (jstring \<times> jstring) option" where
  "numberThenName line =
     (let t = dropWhile isSpace line;
          id' = takeWhile isDigit t;
          r = dropWhile isDigit t;
          w = takeWhile isBarOrSpace r;
          rest = dropWhile isBarOrSpace r
      in if id' = [] then None
         else if rest \<noteq> [] \<and> isArabic (hd rest) then Some (id', takeWhile isArabicOrSpace rest)
         else if list_ex isSpace w then Some (id', [last (filter isSpace w)])
         else None)"

text \<open>\<open>/^\s*(\d+)\s*$/\<close>: the result is the group.\<close>

definition numberOnly :: "jstring \<Rightarrow> jstring option" where
  "numberOnly line =
     (let t = dropWhile isSpace line; id' = takeWhile isDigit t
      in if id' \<noteq> [] \<and> list_all isSpace (dropWhile isDigit t) then Some id' else None)"

text \<open>The first match of \<open>/\d+/g\<close>, and \<open>line.replace(/\d+/g, "")\<close>.\<close>

definition firstNumber :: "jstring \<Rightarrow> jstring" where
  "firstNumber line = takeWhile isDigit (dropWhile (\<lambda>c. \<not> isDigit c) line)"

definition withoutDigits :: "jstring \<Rightarrow> jstring" where
  "withoutDigits line = filter (\<lambda>c. \<not> isDigit c) line"

text \<open>
  The body of the loop for the line \<open>l\<close>, followed in the section by the lines \<open>rest\<close>:
  the new object, and whether the next line was used for the name (\<open>i++\<close>).
\<close>

definition infoStep ::
  "jstring \<Rightarrow> jstring list \<Rightarrow> (jstring \<times> jstring) list \<Rightarrow> (jstring \<times> jstring) list \<times> bool" where
  "infoStep l rest studentInfo =
     (let line = trim l
      in if isStudentHeader line then (studentInfo, False)
         else
           (case numberThenName line of
              Some (id', nm) \<Rightarrow> (setProperty studentInfo id' (trim nm), False)
            | None \<Rightarrow>
                (case numberOnly line of
                   Some id' \<Rightarrow>
                     if rest \<noteq> [] \<and> hd rest \<noteq> [] \<and> list_all isArabicOrSpace (hd rest)
                     then (setProperty studentInfo id' (trim (hd rest)), True)
                     else (setProperty studentInfo id' (kw_talib @ id'), False)
                 | None \<Rightarrow>
                     if list_ex isArabic line \<and> list_ex isDigit line \<and>
                        length (trim (withoutDigits line)) > 2
                     then (setProperty studentInfo (firstNumber line) (trim (withoutDigits line)), False)
                     else (studentInfo, False))))"

function infoLoop :: "jstring list \<Rightarrow> (jstring \<times> jstring) list \<Rightarrow> (jstring \<times> jstring) list" where
  "infoLoop [] studentInfo = studentInfo"
| "infoLoop (l # rest) studentInfo =
     (case infoStep l rest studentInfo of
        (studentInfo', used) \<Rightarrow> infoLoop (if used then tl rest else rest) studentInfo')"
  by pat_completeness auto
termination
  by (relation "measure (\<lambda>(ls, studentInfo). length ls)") auto

definition extractStudentInfoFromSection :: "jstring list \<Rightarrow> (jstring \<times> jstring) list" where
  "extractStudentInfoFromSection studentSection = infoLoop studentSection []"

subsection \<open>\<open>extractMarkValues\<close>\<close>

text \<open>
  \<open>parseFloat(markStr.replace(",", "."))\<close> for a token of the mark expression: digits,
  or digits, a separator and digits.
\<close>

definition tokenValue :: "jstring \<Rightarrow> rat" where
  "tokenValue tok = decimalValue (takeWhile isDigit tok) (drop 1 (dropWhile isDigit tok))"

text \<open>\<open>markValue >= 0 && markValue <= 20\<close>\<close>

definition inMarkRange :: "rat \<Rightarrow> bool" where
  "inMarkRange v = (0 \<le> v \<and> v \<le> 20)"

text \<open>The lines that are skipped: they name a date, the school year, the kingdom, the ministry.\<close>

definition isMetadataLine :: "jstring \<Rightarrow> bool" where
  "isMetadataLine line =
     (includes_str line kw_tarikh \<or> includes_str line kw_almawsim \<or>
      includes_str line kw_addirasi \<or> includes_str line kw_almamlaka \<or>
      includes_str line kw_wizara)"

definition extractMarkValues :: "jstring list \<Rightarrow> rat list" where
  "extractMarkValues lines =
     concat (map (\<lambda>line. if isMetadataLine line then []
                          else filter inMarkRange (map tokenValue (markTokens None line)))
               lines)"

subsection \<open>\<open>extractStudentsByPatterns\<close>\<close>

text \<open>
  No section, or no property in \<open>studentInfo\<close>: no record. Every key of \<open>studentInfo\<close>
  is a string of digits, so that no id is \<open>NaN\<close> and the last branch is never taken.
\<close>

definition extractStudentsByPatterns :: "(jstring \<Rightarrow> jstring) \<Rightarrow> jstring list \<Rightarrow> Student list" where
  "extractStudentsByPatterns toLowerCase lines =
     (case findStudentSection toLowerCase lines of
        None \<Rightarrow> []
      | Some studentSection \<Rightarrow>
          (let studentInfo = extractStudentInfoFromSection studentSection
           in if length (objectEntries studentInfo) = 0 then []
              else (case assignMarksToStudents (objectEntries studentInfo) (extractMarkValues lines) of
                      Some students \<Rightarrow> students
                    | None \<Rightarrow> [])))"

subsection \<open>\<open>extractBasicStudentData\<close>\<close>

text \<open>
  \<open>line.replace(/\d+([.,]\d+)?/g, "")\<close>: every run of digits goes, with a separator and
  the digits after it if they follow.
\<close>

function stripNumbers :: "jstring \<Rightarrow> jstring" where
  "stripNumbers [] = []"
| "stripNumbers (c # s) =
     (if isDigit c then
        (let r = dropWhile isDigit s
         in if r \<noteq> [] \<and> (hd r = 46 \<or> hd r = 44) \<and> tl r \<noteq> [] \<and> isDigit (hd (tl r))
            then stripNumbers (dropWhile isDigit (tl r))
            else stripNumbers r)
      else c # stripNumbers s)"
  by pat_completeness auto
termination
proof (relation "measure length")
  fix c s r
  assume r: "r = dropWhile isDigit s"
  have a: "length (dropWhile isDigit s) \<le> length s"
    by (rule length_dropWhile_le)
  have "length (dropWhile isDigit (tl r)) \<le> length (tl r)"
    by (rule length_dropWhile_le)
  also have "\<dots> \<le> length r"
    by simp
  finally show "(dropWhile isDigit (tl r), c # s) \<in> measure length"
    using a r by simp
  show "(r, c # s) \<in> measure length"
    using a r by simp
qed simp_all

text \<open>
  \<open>/\b(\d{1,2}[.,]\d{1,2})\b/g\<close>: as the mark expression of \<open>parseLine\<close>, the fraction
  being required. The lengths tried at a position are 2 + 1 + 2, 2 + 1 + 1, 1 + 1 + 2 and
  1 + 1 + 1, in that order.
\<close>

definition decimalTokenCandidates :: "jstring \<Rightarrow> nat list" where
  "decimalTokenCandidates s =
     concat (map (\<lambda>n1.
        if n1 \<le> length s \<and> list_all isDigit (take n1 s) then
          concat (map (\<lambda>n2.
            if n1 + 1 + n2 \<le> length s \<and> (s ! n1 = 46 \<or> s ! n1 = 44) \<and>
               list_all isDigit (take n2 (drop (n1 + 1) s))
            then [n1 + 1 + n2] else []) [2, 1])
        else []) [2, 1])"

definition decimalTokenAt :: "codeunit option \<Rightarrow> jstring \<Rightarrow> nat option" where
  "decimalTokenAt prev s =
     (if wordBoundary prev s
      then List.find (\<lambda>n. wordBoundary (Some (s ! (n - 1))) (drop n s)) (decimalTokenCandidates s)
      else None)"

lemma decimalTokenCandidates_pos: "n \<in> set (decimalTokenCandidates s) \<Longrightarrow> 0 < n"
  by (auto simp: decimalTokenCandidates_def split: if_splits)

lemma decimalTokenAt_pos: "decimalTokenAt prev s = Some n \<Longrightarrow> 0 < n"
  by (auto simp: decimalTokenAt_def find_Some_iff split: if_splits
      intro: decimalTokenCandidates_pos [OF nth_mem])

function decimalTokens :: "codeunit option \<Rightarrow> jstring \<Rightarrow> jstring list" where
  "decimalTokens prev [] = []"
| "decimalTokens prev (c # s) =
     (case decimalTokenAt prev (c # s) of
        Some n \<Rightarrow> take n (c # s) # decimalTokens (Some ((c # s) ! (n - 1))) (drop n (c # s))
      | None \<Rightarrow> decimalTokens (Some c) s)"
  by pat_completeness auto
termination
  by (relation "measure (\<lambda>(prev, s). length s)") (auto dest: decimalTokenAt_pos)

text \<open>
  The record of the \<open>i\<close>-th numbered line: its leading number, its text without the
  numbers as the name (or the next line, if that is not numbered, or a placeholder), and
  the decimal tokens of the line that are in the range, as the marks. \<open>numberMatch\<close> is
  the match of \<open>/^\s*(\d+)\s/\<close>; a line without it is skipped.
\<close>

definition basicStudent :: "(rat \<Rightarrow> jstring) \<Rightarrow> jstring list \<Rightarrow> nat \<Rightarrow> Student option" where
  "basicStudent numberToString studentLines i =
     (let line = studentLines ! i
      in if \<not> startsWithNumber line then None
         else
           (let studentNumber = of_nat (parseDigits (takeWhile isDigit (dropWhile isSpace line)));
                name0 = trim (stripNumbers line);
                name1 = (if length name0 < 3 \<and> i + 1 < length studentLines \<and>
                            \<not> startsWithNumber (studentLines ! (i + 1))
                         then trim (studentLines ! (i + 1)) else name0);
                studentName = (if length name1 < 3 then kw_talib @ numberToString studentNumber
                               else name1);
                markList = filter inMarkRange (map tokenValue (decimalTokens None line))
            in Some \<lparr>number = studentNumber, name = studentName, marks = marksOf markList\<rparr>))"

definition extractBasicStudentData :: "(rat \<Rightarrow> jstring) \<Rightarrow> jstring list \<Rightarrow> Student list" where
  "extractBasicStudentData numberToString lines =
     (let studentLines = filter startsWithNumber lines
      in List.map_filter (basicStudent numberToString studentLines) [0..<length studentLines])"


section \<open>The pipeline coordinator\<close>

text \<open>
  \<open>processOCRWithMultipleApproaches\<close>. The four functions it calls are its parameters
  here, and the model returns, with the students, the list of the calls it made, in
  order: the instrumentation that shows which strategy was invoked.
\<close>

datatype call = DetectTable | ExtractStudentData | ExtractStudentsByPatterns | ExtractBasicStudentData

definition fallbackApproaches ::
  "(jstring list \<Rightarrow> Student list) \<Rightarrow> (jstring list \<Rightarrow> Student list) \<Rightarrow> call list \<Rightarrow> jstring list
     \<Rightarrow> call list \<times> Student list" where
  "fallbackApproaches extractStudentsByPatterns' extractBasicStudentData' calls lines =
     (let studentsFromPatterns = extractStudentsByPatterns' lines;
          calls2 = calls @ [ExtractStudentsByPatterns]
      in if length studentsFromPatterns > 0 then (calls2, studentsFromPatterns)
         else (calls2 @ [ExtractBasicStudentData], extractBasicStudentData' lines))"

definition processOCRWithMultipleApproaches ::
  "(jstring list \<Rightarrow> TableStructure option) \<Rightarrow> (TableStructure \<Rightarrow> Student list) \<Rightarrow>
   (jstring list \<Rightarrow> Student list) \<Rightarrow> (jstring list \<Rightarrow> Student list) \<Rightarrow> jstring
     \<Rightarrow> call list \<times> Student list" where
  "processOCRWithMultipleApproaches detectTable' extractStudentData' extractStudentsByPatterns'
       extractBasicStudentData' extractedText =
     (let lines = prepareLines extractedText;
          tableStructure = detectTable' lines
      in case tableStructure of
           Some ts \<Rightarrow>
             (let studentsFromTable = extractStudentData' ts
              in if length studentsFromTable > 0
                 then ([DetectTable, ExtractStudentData], studentsFromTable)
                 else fallbackApproaches extractStudentsByPatterns' extractBasicStudentData'
                        [DetectTable, ExtractStudentData] lines)
         | None \<Rightarrow>
             fallbackApproaches extractStudentsByPatterns' extractBasicStudentData'
               [DetectTable] lines)"

text \<open>The result of the table-based strategy: no record when no table is detected.\<close>

definition tableResult ::
  "(jstring list \<Rightarrow> TableStructure option) \<Rightarrow> (TableStructure \<Rightarrow> Student list) \<Rightarrow> jstring list
     \<Rightarrow> Student list" where
  "tableResult detectTable' extractStudentData' lines =
     (case detectTable' lines of None \<Rightarrow> [] | Some ts \<Rightarrow> extractStudentData' ts)"

text \<open>
  An OCR text of two lines, a header with the keywords for number, name and assignment and
  a student row with the mark 25, the columns two spaces apart.
\<close>

definition markAboveRange :: jstring where
  "markAboveRange = kw_raqm @ ascii ''  '' @ kw_ism @ ascii ''  '' @ kw_alfard @ [10]
                    @ ascii ''1  '' @ [0x623, 0x62D, 0x645, 0x62F] @ ascii ''  25''"


subsection \<open>The coordinator with its three strategies\<close>

definition processOCR :: "(jstring \<Rightarrow> jstring) \<Rightarrow> (rat \<Rightarrow> jstring) \<Rightarrow> jstring \<Rightarrow> call list \<times> Student list" where
  "processOCR toLowerCase numberToString extractedText =
     processOCRWithMultipleApproaches (detectTable toLowerCase) (extractStudentData numberToString)
       (extractStudentsByPatterns toLowerCase) (extractBasicStudentData numberToString)
       extractedText"

text \<open>Every mark of every record of a list lies between 0 and 20.\<close>

definition marksInRange :: "Student list \<Rightarrow> bool" where
  "marksInRange students =
     list_all (\<lambda>s. list_all inMarkRange (assignedMarks (marks s))) students"

text \<open>Two OCR texts: a header and a line that is no table row; a numbered line before a header.\<close>

definition patternText :: jstring where
  "patternText = kw_raqm @ ascii '' '' @ kw_ism @ [10]
                 @ ascii ''abc 5 '' @ [0x623, 0x62D, 0x645, 0x62F]"

definition basicText :: jstring where
  "basicText = ascii ''12 abc 14.5 30.5'' @ [10] @ kw_raqm @ ascii '' '' @ kw_ism"


section \<open>Properties\<close>

subsection \<open>Strings\<close>

lemma includes_str_sublist: "includes_str s k = sublist k s"
  by (induction s) (auto simp: sublist_Cons_right)

lemma endsWith_suffix: "endsWith s k = suffix k s"
proof
  assume "endsWith s k"
  then have "s = take (length s - length k) s @ k"
    by (metis append_take_drop_id endsWith_def)
  then show "suffix k s"
    by (metis suffixI)
next
  assume "suffix k s"
  then obtain p where "s = p @ k"
    by (auto simp: suffix_def)
  then show "endsWith s k"
    by (simp add: endsWith_def)
qed

lemma endsWith_Nil [simp]: "endsWith s []"
  by (simp add: endsWith_def)

subsection \<open>The numeral pre-pass\<close>

lemma map_of_numeralMap:
  "0x660 \<le> d \<Longrightarrow> d \<le> 0x669 \<Longrightarrow> map_of numeralMap d = Some [d - 0x660 + 48]"
proof -
  assume "0x660 \<le> d" "d \<le> 0x669"
  then have "d \<in> {0x660, 0x661, 0x662, 0x663, 0x664, 0x665, 0x666, 0x667, 0x668, 0x669}"
    by simp arith
  then show ?thesis
    by (auto simp: numeralMap_def ascii_def)
qed

lemma normalizeArabicNumber_map:
  "normalizeArabicNumber s =
     map (\<lambda>d. if 0x660 \<le> d \<and> d \<le> 0x669 then d - 0x660 + 48 else d) s"
  by (induction s) (auto simp: normalizeArabicNumber_def map_of_numeralMap)

lemma length_normalizeArabicNumber: "length (normalizeArabicNumber s) = length s"
  by (simp add: normalizeArabicNumber_map)

text \<open>
  What the pre-pass does: a code unit from U+0660 to U+0669 becomes the ASCII digit of the
  same value, every other code unit stays, position by position.
\<close>

lemma normalizeArabicNumber_nth:
  "i < length s \<Longrightarrow>
     normalizeArabicNumber s ! i =
       (if 0x660 \<le> s ! i \<and> s ! i \<le> 0x669 then 48 + (s ! i - 0x660) else s ! i)"
  by (simp add: normalizeArabicNumber_map)

lemma normalizeArabicNumber_example:
  "normalizeArabicNumber [0x661, 0x662, 0x2E, 0x665, 0x660] = ascii ''12.50''"
  by (simp add: normalizeArabicNumber_map ascii_def)

lemma prepareLines_example:
  "prepareLines [0x20, 0x661, 0x662, 0x2E, 0x665, 0x660, 0x20, 10, 10, 0x33] =
     [ascii ''12.50'', ascii ''3'']"
  by (simp add: prepareLines_def normalizeArabicNumber_map ascii_def trim_def isSpace_def)

text \<open>
  C7 (the pre-pass maps every native, non-ASCII decimal digit to its ASCII equivalent):
  the digits U+06F0 to U+06F9 (the Persian forms, in the same Arabic block) are outside
  the class of the regular expression and stay as they are, although the comment of the
  function announces "Arabic/Persian numerals". The Persian "12.50" comes back unchanged.
\<close>

theorem normalizeArabicNumber_persian_unchanged:
  "normalizeArabicNumber [0x6F1, 0x6F2, 0x2E, 0x6F5, 0x6F0] = [0x6F1, 0x6F2, 0x2E, 0x6F5, 0x6F0]
   \<and> normalizeArabicNumber [0x6F1, 0x6F2, 0x2E, 0x6F5, 0x6F0] \<noteq> ascii ''12.50''
   \<and> prepareLines [0x6F1, 0x6F2, 0x2E, 0x6F5, 0x6F0] = [[0x6F1, 0x6F2, 0x2E, 0x6F5, 0x6F0]]"
  by (simp add: prepareLines_def normalizeArabicNumber_map ascii_def trim_def isSpace_def)

subsection \<open>Matching by student number\<close>

text \<open>The loop returns the first index from \<open>i\<close> on whose row matches, -1 if there is none.\<close>

lemma findStudentRowByNumber_loop_find:
  "findStudentRowByNumber_loop c n vals i =
     (case List.find (\<lambda>k. numberRowMatches c n (vals ! k)) [i..<length vals] of
        Some k \<Rightarrow> int k
      | None \<Rightarrow> - 1)"
proof (induction c n vals i rule: findStudentRowByNumber_loop.induct)
  case (1 c n vals i)
  show ?case
  proof (cases "i < length vals")
    case True
    then have "[i..<length vals] = i # [Suc i..<length vals]"
      by (simp add: upt_conv_Cons)
    with True "1.IH" show ?thesis
      by (subst findStudentRowByNumber_loop.simps) simp
  next
    case False
    then show ?thesis
      by (subst findStudentRowByNumber_loop.simps) simp
  qed
qed

lemma numberRowMatches_iff:
  "numberRowMatches c (stripNonDigits studentNum) r = idCellMatches studentNum (at_index r c)"
  by (auto simp: numberRowMatches_def idCellMatches_def stripNonDigits_def endsWith_suffix
      at_index_def Let_def split: option.splits)

lemma findStudentRowByNumber_first:
  "findStudentRowByNumber (Some ws) studentNum vals =
     Inr (case List.find (\<lambda>k. idCellMatches studentNum (at_index (vals ! k) (wsStudentNumberColumn ws)))
                 [1..<length vals] of
            Some k \<Rightarrow> int k
          | None \<Rightarrow> - 1)"
  by (simp add: findStudentRowByNumber_def findStudentRowByNumber_loop_find numberRowMatches_iff)

lemma find_Some_mem: "List.find P xs = Some x \<Longrightarrow> x \<in> set xs \<and> P x"
  by (induction xs) (auto split: if_splits)

lemma upt_1_3: "[1..<3] = [1, 2]"
  by (simp add: upt_rec)

text \<open>
  C6, as stated (the first row whose cleaned id cell and the cleaned target are suffix
  related): an empty id cell cleans to the empty string, a suffix of every target, but
  the loop skips a falsy cell. With target "5" and the id cells "", "5" under the header,
  the loop returns row 2, the stated rule row 1.
\<close>

theorem findStudentRowByNumber_skips_empty_cell:
  "findStudentRowByNumber (Some \<lparr>wsStudentNameColumn = 1, wsStudentNumberColumn = 0\<rparr>) (ascii ''5'')
       [[Str (ascii ''ID'')], [Str []], [Str (ascii ''5'')]] = Inr 2
   \<and> idMatch_spec 0 (ascii ''5'') [[Str (ascii ''ID'')], [Str []], [Str (ascii ''5'')]] = 1"
  by (simp add: findStudentRowByNumber_first idMatch_spec_def idCellMatches_def at_index_def
      upt_1_3 ascii_def isDigit_def)

text \<open>
  C6, amended: with the worksheet structure known, the id match strips the non-digits from
  the target and from each id cell, and returns the first row index from row 1 on whose
  row has an id cell that is truthy (not empty, not 0, not false) and suffix related to
  the target, -1 if there is none. Target "123456789" matches the cell "G000123456789".
\<close>

theorem findStudentRowByNumber_first_truthy_suffix:
  "findStudentRowByNumber (Some ws) studentNum vals =
     Inr (case List.find (\<lambda>k. idCellMatches studentNum (at_index (vals ! k) (wsStudentNumberColumn ws)))
                 [1..<length vals] of
            Some k \<Rightarrow> int k
          | None \<Rightarrow> - 1)
   \<and> findStudentRowByNumber (Some \<lparr>wsStudentNameColumn = 1, wsStudentNumberColumn = 0\<rparr>)
         (ascii ''123456789'')
         [[Str (ascii ''ID'')], [Str (ascii ''G000999999999'')], [Str (ascii ''G000123456789'')]]
       = Inr 2"
proof
  show "findStudentRowByNumber (Some ws) studentNum vals =
     Inr (case List.find (\<lambda>k. idCellMatches studentNum (at_index (vals ! k) (wsStudentNumberColumn ws)))
                 [1..<length vals] of
            Some k \<Rightarrow> int k
          | None \<Rightarrow> - 1)"
    by (rule findStudentRowByNumber_first)
next
  show "findStudentRowByNumber (Some \<lparr>wsStudentNameColumn = 1, wsStudentNumberColumn = 0\<rparr>)
         (ascii ''123456789'')
         [[Str (ascii ''ID'')], [Str (ascii ''G000999999999'')], [Str (ascii ''G000123456789'')]]
       = Inr 2"
    by (simp add: findStudentRowByNumber_first idCellMatches_def at_index_def upt_1_3 ascii_def
        isDigit_def suffix_def)
qed

lemma idCellMatches_no_digits:
  "filter isDigit studentNum = [] \<Longrightarrow> idCellMatches studentNum cell = truthyCell cell"
  by (simp add: idCellMatches_def truthyCell_def split: option.splits)

text \<open>
  C10: when the target has no digit, the id match returns the first row from row 1 on
  whose id cell is truthy, and -1 exactly when no such row has a truthy id cell.
\<close>

theorem findStudentRowByNumber_no_digits:
  assumes "filter isDigit studentNum = []"
  shows "findStudentRowByNumber (Some ws) studentNum vals =
           Inr (case List.find (\<lambda>k. truthyCell (at_index (vals ! k) (wsStudentNumberColumn ws)))
                       [1..<length vals] of
                  Some k \<Rightarrow> int k
                | None \<Rightarrow> - 1)
         \<and> ((findStudentRowByNumber (Some ws) studentNum vals = Inr (- 1)) =
              (\<forall>k \<in> {1..<length vals}.
                 \<not> truthyCell (at_index (vals ! k) (wsStudentNumberColumn ws))))"
proof -
  let ?P = "\<lambda>k. truthyCell (at_index (vals ! k) (wsStudentNumberColumn ws))"
  have eq: "findStudentRowByNumber (Some ws) studentNum vals =
           Inr (case List.find ?P [1..<length vals] of Some k \<Rightarrow> int k | None \<Rightarrow> - 1)"
    by (simp add: findStudentRowByNumber_first idCellMatches_no_digits [OF assms])
  have "(findStudentRowByNumber (Some ws) studentNum vals = Inr (- 1)) =
           (\<forall>k \<in> {1..<length vals}. \<not> ?P k)"
  proof (cases "List.find ?P [1..<length vals]")
    case None
    then have "\<forall>k \<in> {1..<length vals}. \<not> ?P k"
      by (auto simp: find_None_iff)
    then show ?thesis
      unfolding eq None by simp
  next
    case (Some k)
    from find_Some_mem [OF Some] have "\<exists>k \<in> {1..<length vals}. ?P k"
      by auto
    then show ?thesis
      unfolding eq Some by simp
  qed
  with eq show ?thesis
    by blast
qed

theorem findStudentRowByNumber_no_digits_witness:
  "filter isDigit (ascii ''NaN'') = []
   \<and> findStudentRowByNumber (Some \<lparr>wsStudentNameColumn = 1, wsStudentNumberColumn = 0\<rparr>) (ascii ''NaN'')
       [[Str (ascii ''ID'')], [Str []], [Str (ascii ''G000123456789'')]] = Inr 2
   \<and> findStudentRowByNumber (Some \<lparr>wsStudentNameColumn = 1, wsStudentNumberColumn = 0\<rparr>) (ascii ''NaN'')
       [[Str (ascii ''ID'')], [Str []], [Num 0]] = Inr (- 1)"
proof -
  have h: "filter isDigit (ascii ''NaN'') = []"
    by (simp add: ascii_def isDigit_def)
  show ?thesis
    using h findStudentRowByNumber_no_digits [OF h,
        of "\<lparr>wsStudentNameColumn = 1, wsStudentNumberColumn = 0\<rparr>"
           "[[Str (ascii ''ID'')], [Str []], [Str (ascii ''G000123456789'')]]"]
      findStudentRowByNumber_no_digits [OF h,
        of "\<lparr>wsStudentNameColumn = 1, wsStudentNumberColumn = 0\<rparr>"
           "[[Str (ascii ''ID'')], [Str []], [Num 0]]"]
    by (simp add: truthyCell_def at_index_def upt_1_3 ascii_def)
qed

subsection \<open>The edit distance is the Levenshtein distance\<close>

lemma lev_Nil2 [simp]: "lev xs [] = length xs"
  by (cases xs) auto

lemma lev_sym: "lev xs ys = lev ys xs"
  by (induction xs ys rule: lev.induct) (auto simp: min.commute min.left_commute)

lemma lev_del: "lev (a # v) ys \<le> Suc (lev v ys)"
  by (cases ys) auto

lemma lev_ins: "lev v (b # ys) \<le> Suc (lev v ys)"
  using lev_del [of b ys v] by (simp add: lev_sym)

lemma lev_undel: "lev v ys \<le> Suc (lev (a # v) ys)"
proof (induction ys)
  case Nil
  show ?case by simp
next
  case (Cons y ys)
  have "lev v (y # ys) \<le> Suc (lev v ys)" by (rule lev_ins)
  with Cons show ?case by (auto simp: min_def)
qed

lemma lev_unins: "lev v ys \<le> Suc (lev v (b # ys))"
  using lev_undel [of ys v b] by (simp add: lev_sym)

lemma lev_subst: "lev (a # v) ys \<le> Suc (lev (b # v) ys)"
proof (induction ys)
  case Nil
  show ?case by simp
next
  case (Cons y ys)
  have 1: "lev (a # v) (y # ys) \<le> Suc (lev v (y # ys))" by (rule lev_del)
  have 2: "lev (a # v) (y # ys) \<le> Suc (lev (a # v) ys)" by (rule lev_ins)
  have 3: "lev (a # v) (y # ys) \<le> Suc (lev v ys)" by (auto simp: min_def)
  from 1 2 3 Cons show ?case by (auto simp: min_def)
qed

lemma lev_Cons_mono:
  assumes "\<And>ys. lev xs ys \<le> Suc (lev zs ys)"
  shows "lev (c # xs) ys \<le> Suc (lev (c # zs) ys)"
proof (induction ys)
  case Nil
  from assms [of "[]"] show ?case by simp
next
  case (Cons y ys)
  have 1: "lev (c # xs) (y # ys) \<le> Suc (lev xs (y # ys))" by (rule lev_del)
  have 2: "lev (c # xs) (y # ys) \<le> Suc (lev (c # xs) ys)" by (rule lev_ins)
  have 3: "lev (c # xs) (y # ys) \<le> (if c = y then 0 else 1) + lev xs ys"
    by (auto simp: min_def)
  from 1 2 3 Cons assms [of "y # ys"] assms [of ys] show ?case by (auto simp: min_def)
qed

lemma lev_prefix_mono:
  assumes "\<And>ys. lev xs ys \<le> Suc (lev zs ys)"
  shows "lev (u @ xs) ys \<le> Suc (lev (u @ zs) ys)"
  using assms by (induction u arbitrary: ys) (auto intro: lev_Cons_mono)

lemma lev_edit1: "edit1 xs zs \<Longrightarrow> lev xs ys \<le> Suc (lev zs ys)"
proof (induction rule: edit1.induct)
  case (insertion u v a)
  show ?case by (rule lev_prefix_mono) (simp add: lev_undel)
next
  case (deletion u a v)
  show ?case by (rule lev_prefix_mono) (simp add: lev_del)
next
  case (substitution u a v b)
  show ?case by (rule lev_prefix_mono) (simp add: lev_subst)
qed

lemma lev_same [simp]: "lev xs xs = 0"
  by (induction xs) auto

lemma lev_minimal: "(edit1 ^^ n) xs ys \<Longrightarrow> lev xs ys \<le> n"
proof (induction n arbitrary: xs)
  case 0
  then show ?case by simp
next
  case (Suc n)
  from relpowp_Suc_D2 [OF Suc.prems] obtain zs where "edit1 xs zs" "(edit1 ^^ n) zs ys"
    by blast
  with Suc.IH [of zs] lev_edit1 [of xs zs ys] show ?case by simp
qed

lemma edit1_Cons: "edit1 xs ys \<Longrightarrow> edit1 (c # xs) (c # ys)"
proof (induction rule: edit1.induct)
  case (insertion u v a)
  from edit1.insertion [of "c # u" v a] show ?case by simp
next
  case (deletion u a v)
  from edit1.deletion [of "c # u" a v] show ?case by simp
next
  case (substitution u a v b)
  from edit1.substitution [of "c # u" a v b] show ?case by simp
qed

lemma edits_Cons: "(edit1 ^^ n) xs ys \<Longrightarrow> (edit1 ^^ n) (c # xs) (c # ys)"
proof (induction n arbitrary: ys)
  case 0
  then show ?case by simp
next
  case (Suc n)
  from relpowp_Suc_E [OF Suc.prems] obtain zs where "(edit1 ^^ n) xs zs" "edit1 zs ys"
    by blast
  then have "(edit1 ^^ Suc n) (c # xs) (c # ys)"
    using relpowp_Suc_I [OF Suc.IH [of zs] edit1_Cons [of zs ys c]] by simp
  then show ?case .
qed

lemma edit1_ins_head: "edit1 v (a # v)"
  using edit1.insertion [of "[]" v a] by simp

lemma edit1_del_head: "edit1 (a # v) v"
  using edit1.deletion [of "[]" a v] by simp

lemma edit1_subst_head: "edit1 (a # v) (b # v)"
  using edit1.substitution [of "[]" a v b] by simp

lemma edits_from_Nil: "(edit1 ^^ length ys) [] ys"
proof (induction ys)
  case Nil
  show ?case by simp
next
  case (Cons y ys)
  have "(edit1 ^^ Suc (length ys)) [] (y # ys)"
    by (rule relpowp_Suc_I [OF Cons edit1_ins_head])
  then show ?case by simp
qed

lemma edits_to_Nil: "(edit1 ^^ length xs) xs []"
proof (induction xs)
  case Nil
  show ?case by simp
next
  case (Cons x xs)
  have "(edit1 ^^ Suc (length xs)) (x # xs) []"
    by (rule relpowp_Suc_I2 [OF edit1_del_head Cons])
  then show ?case by simp
qed

lemma lev_reachable: "(edit1 ^^ lev xs ys) xs ys"
proof (induction xs ys rule: lev.induct)
  case (1 ys)
  show ?case using edits_from_Nil [of ys] by simp
next
  case (2 x xs)
  show ?case using edits_to_Nil [of "x # xs"] by simp
next
  case (3 x xs y ys)
  let ?d = "(if x = y then 0 else 1) + lev xs ys"
  have a: "(edit1 ^^ Suc (lev xs (y # ys))) (x # xs) (y # ys)"
    by (rule relpowp_Suc_I2 [OF edit1_del_head "3.IH"(1)])
  have b: "(edit1 ^^ Suc (lev (x # xs) ys)) (x # xs) (y # ys)"
    by (rule relpowp_Suc_I [OF "3.IH"(2) edit1_ins_head])
  have c: "(edit1 ^^ ?d) (x # xs) (y # ys)"
  proof (cases "x = y")
    case True
    with edits_Cons [OF "3.IH"(3), of y] show ?thesis by simp
  next
    case False
    have "(edit1 ^^ Suc (lev xs ys)) (x # xs) (y # ys)"
      by (rule relpowp_Suc_I2 [OF edit1_subst_head edits_Cons [OF "3.IH"(3)]])
    with False show ?thesis by simp
  qed
  have "lev (x # xs) (y # ys) = Suc (lev xs (y # ys)) \<or>
        lev (x # xs) (y # ys) = Suc (lev (x # xs) ys) \<or>
        lev (x # xs) (y # ys) = ?d"
    by (auto simp: min_def)
  with a b c show ?case by metis
qed

lemma levenshtein_lev: "levenshtein xs ys = lev xs ys"
  unfolding levenshtein_def
  by (rule Least_equality) (auto intro: lev_reachable lev_minimal)

lemma edit1_rev: "edit1 xs ys \<Longrightarrow> edit1 (rev xs) (rev ys)"
proof (induction rule: edit1.induct)
  case (insertion u v a)
  from edit1.insertion [of "rev v" "rev u" a] show ?case by simp
next
  case (deletion u a v)
  from edit1.deletion [of "rev v" a "rev u"] show ?case by simp
next
  case (substitution u a v b)
  from edit1.substitution [of "rev v" a "rev u" b] show ?case by simp
qed

lemma edits_rev: "(edit1 ^^ n) xs ys \<Longrightarrow> (edit1 ^^ n) (rev xs) (rev ys)"
proof (induction n arbitrary: ys)
  case 0
  then show ?case by simp
next
  case (Suc n)
  from relpowp_Suc_E [OF Suc.prems] obtain zs where "(edit1 ^^ n) xs zs" "edit1 zs ys"
    by blast
  then show ?case
    using relpowp_Suc_I [OF Suc.IH [of zs] edit1_rev [of zs ys]] by simp
qed

lemma lev_rev_le: "lev (rev xs) (rev ys) \<le> lev xs ys"
  by (rule lev_minimal [OF edits_rev [OF lev_reachable]])

lemma lev_rev: "lev (rev xs) (rev ys) = lev xs ys"
  using lev_rev_le [of xs ys] lev_rev_le [of "rev xs" "rev ys"] by simp

lemma lev_Cons_same: "lev (x # xs) (x # ys) = lev xs ys"
  using lev_undel [of xs ys x] lev_unins [of xs ys x] by (simp add: min_def)

lemma lev_Cons_diff:
  "x \<noteq> y \<Longrightarrow>
     lev (x # xs) (y # ys) = min (min (lev xs ys) (lev (x # xs) ys)) (lev xs (y # ys)) + 1"
  by (simp add: min_def)

lemma dist_0_left: "j \<le> length s2 \<Longrightarrow> dist s1 s2 0 j = j"
  by (simp add: dist_def)

lemma dist_0_right: "i \<le> length s1 \<Longrightarrow> dist s1 s2 i 0 = i"
  by (simp add: dist_def)

lemma dist_Suc_Suc:
  assumes "i < length s1" "j < length s2"
  shows "dist s1 s2 (Suc i) (Suc j) =
           (if s1 ! i \<noteq> s2 ! j
            then min (min (dist s1 s2 i j) (dist s1 s2 (Suc i) j)) (dist s1 s2 i (Suc j)) + 1
            else dist s1 s2 i j)"
  using assms
  by (simp add: dist_def take_Suc_conv_app_nth lev_Cons_same lev_Cons_diff del: lev.simps)

lemma assign_at_length: "assign costs (length costs) v = costs @ [v]"
  by (simp add: assign_def)

lemma row0_fold:
  "fold (editDistance_inner s1 s2 0) [0..<k] (l, []) = (l, [0..<k])"
  by (induction k) (simp_all add: editDistance_inner_def assign_def)

lemma merged_nth:
  "k \<le> n \<Longrightarrow> (map f [0..<k] @ map g [k..<Suc n]) ! k = g k"
  by (simp add: nth_append del: upt_Suc)

lemma merged_nth_Suc:
  "k < n \<Longrightarrow> (map f [0..<k] @ map g [k..<Suc n]) ! Suc k = g (Suc k)"
  by (simp add: nth_append del: upt_Suc)

lemma merged_assign:
  "k \<le> n \<Longrightarrow>
     assign (map f [0..<k] @ map g [k..<Suc n]) k (f k) =
       map f [0..<Suc k] @ map g [Suc k..<Suc n]"
  by (simp add: assign_def list_update_append upt_conv_Cons)

lemma inner_fold:
  assumes "0 < i" "i \<le> length s1" "k \<le> length s2"
  shows "fold (editDistance_inner s1 s2 i) [0..<Suc k]
           (i, map (dist s1 s2 (i - 1)) [0..<Suc (length s2)]) =
         (dist s1 s2 i k,
          map (dist s1 s2 i) [0..<k] @ map (dist s1 s2 (i - 1)) [k..<Suc (length s2)])"
  using assms(3)
proof (induction k)
  case 0
  with assms show ?case
    by (simp add: editDistance_inner_def dist_0_right)
next
  case (Suc k)
  from assms(1) obtain i' where i: "i = Suc i'"
    by (cases i) auto
  from Suc.prems have k: "k < length s2" "k \<le> length s2"
    by auto
  from i assms(2) have i': "i' < length s1"
    by simp
  have "fold (editDistance_inner s1 s2 i) [0..<Suc (Suc k)]
          (i, map (dist s1 s2 (i - 1)) [0..<Suc (length s2)]) =
        editDistance_inner s1 s2 i (Suc k)
          (dist s1 s2 i k,
           map (dist s1 s2 i) [0..<k] @ map (dist s1 s2 (i - 1)) [k..<Suc (length s2)])"
    using Suc.IH [OF k(2)] by simp
  also have "\<dots> = (dist s1 s2 i (Suc k),
          map (dist s1 s2 i) [0..<Suc k] @ map (dist s1 s2 (i - 1)) [Suc k..<Suc (length s2)])"
    using k i'
    by (simp add: editDistance_inner_def i charAt_def merged_nth merged_nth_Suc
        merged_assign dist_Suc_Suc Let_def del: upt_Suc)
  finally show ?case .
qed

lemma outer_0: "editDistance_outer s1 s2 0 [] = [0..<Suc (length s2)]"
  by (simp add: editDistance_outer_def row0_fold del: upt_Suc)

lemma outer_pos:
  assumes "0 < i" "i \<le> length s1"
  shows "editDistance_outer s1 s2 i (map (dist s1 s2 (i - 1)) [0..<Suc (length s2)]) =
           map (dist s1 s2 i) [0..<Suc (length s2)]"
proof -
  have "assign (map (dist s1 s2 i) [0..<length s2] @
                map (dist s1 s2 (i - 1)) [length s2..<Suc (length s2)])
               (length s2) (dist s1 s2 i (length s2)) =
        map (dist s1 s2 i) [0..<Suc (length s2)] @
        map (dist s1 s2 (i - 1)) [Suc (length s2)..<Suc (length s2)]"
    by (rule merged_assign) simp
  with assms(1) show ?thesis
    unfolding editDistance_outer_def inner_fold [OF assms order_refl] by simp
qed

lemma outer_fold:
  "i \<le> length s1 \<Longrightarrow>
     fold (editDistance_outer s1 s2) [0..<Suc i] [] = map (dist s1 s2 i) [0..<Suc (length s2)]"
proof (induction i)
  case 0
  have "map (dist s1 s2 0) [0..<Suc (length s2)] = [0..<Suc (length s2)]"
    by (rule map_idI) (auto simp: dist_0_left)
  moreover have "fold (editDistance_outer s1 s2) [0..<Suc 0] [] = editDistance_outer s1 s2 0 []"
    by simp
  ultimately show ?case
    by (simp only: outer_0)
next
  case (Suc i)
  then have "fold (editDistance_outer s1 s2) [0..<Suc (Suc i)] [] =
        editDistance_outer s1 s2 (Suc i) (map (dist s1 s2 i) [0..<Suc (length s2)])"
    by simp
  also have "\<dots> = map (dist s1 s2 (Suc i)) [0..<Suc (length s2)]"
    using outer_pos [of "Suc i" s1 s2] Suc.prems by simp
  finally show ?case .
qed

lemma editDistance_lev: "editDistance s1 s2 = lev s1 s2"
proof -
  have "editDistance s1 s2 = map (dist s1 s2 (length s1)) [0..<Suc (length s2)] ! length s2"
    by (simp add: editDistance_def outer_fold del: upt_Suc)
  also have "\<dots> = dist s1 s2 (length s1) (length s2)"
    by (simp add: nth_append del: upt_Suc)
  also have "\<dots> = lev s1 s2"
    by (simp add: dist_def lev_rev)
  finally show ?thesis .
qed

text \<open>
  C4: for every pair of strings, \<open>editDistance\<close> is the Levenshtein distance, the least
  number of single-character insertions, deletions and substitutions that turn the first
  string into the second; the distance from "" to "abc" is 3, from "kitten" to "sitting" 3.
\<close>

theorem editDistance_levenshtein:
  "editDistance s1 s2 = levenshtein s1 s2
   \<and> editDistance [] ''abc'' = 3
   \<and> editDistance ''kitten'' ''sitting'' = 3"
proof -
  have "editDistance s1 s2 = levenshtein s1 s2"
    by (simp add: editDistance_lev levenshtein_lev)
  moreover have "editDistance [] ''abc'' = 3"
    by code_simp
  moreover have "editDistance ''kitten'' ''sitting'' = 3"
    by code_simp
  ultimately show ?thesis
    by simp
qed

subsection \<open>Name similarity and matching by name\<close>

lemma calculateSimilarity_cases:
  "calculateSimilarity s1 s2 =
     (if s1 = s2 then 1
      else if sublist (if length s1 > length s2 then s2 else s1)
                      (if length s1 > length s2 then s1 else s2) then 9 / 10
      else (of_nat (length (if length s1 > length s2 then s1 else s2))
              - of_nat (levenshtein (if length s1 > length s2 then s1 else s2)
                                    (if length s1 > length s2 then s2 else s1)))
           / of_nat (length (if length s1 > length s2 then s1 else s2)))"
proof (cases "s1 = s2")
  case True
  then show ?thesis
    by (simp add: calculateSimilarity_def)
next
  case False
  then have "0 < length (if length s1 > length s2 then s1 else s2)"
    by (cases s1; cases s2) auto
  with False show ?thesis
    by (simp add: calculateSimilarity_def includes_str_sublist editDistance_lev levenshtein_lev
        Let_def)
qed

lemma normalizeArabicText_nameCell:
  "nameCell c \<Longrightarrow>
     normalizeArabicText nfkd lc c =
       Inr (if cellName c = [] then [] else normalizeString nfkd lc (cellName c))"
  by (cases c rule: nameCell.cases) (auto simp: normalizeArabicText_def)

lemma findStudentRowByName_loop_find:
  assumes "\<forall>k \<in> {i..<length vals}. nameCell (at_index (vals ! k) c)"
  shows "findStudentRowByName_loop nfkd lc c n vals i =
     Inr (case List.find
                 (\<lambda>k. c < int (length (vals ! k)) \<and>
                      compareNames n
                        (if cellName (at_index (vals ! k) c) = [] then []
                         else normalizeString nfkd lc (cellName (at_index (vals ! k) c))))
                 [i..<length vals] of
            Some k \<Rightarrow> int k
          | None \<Rightarrow> - 1)"
  using assms
proof (induction nfkd lc c n vals i rule: findStudentRowByName_loop.induct)
  case (1 nfkd lc c n vals i)
  show ?case
  proof (cases "i < length vals")
    case True
    then have upt: "[i..<length vals] = i # [Suc i..<length vals]"
      by (simp add: upt_conv_Cons)
    from True "1.prems" have cell: "nameCell (at_index (vals ! i) c)"
      by simp
    from "1.prems" have rest: "\<forall>k \<in> {Suc i..<length vals}. nameCell (at_index (vals ! k) c)"
      by simp
    show ?thesis
    proof (cases "c < int (length (vals ! i))")
      case False
      with True "1.IH"(2) [OF True False rest] show ?thesis
        by (subst findStudentRowByName_loop.simps) (simp add: upt)
    next
      case inrow: True
      let ?name = "if cellName (at_index (vals ! i) c) = [] then []
                   else normalizeString nfkd lc (cellName (at_index (vals ! i) c))"
      have norm: "normalizeArabicText nfkd lc (at_index (vals ! i) c) = Inr ?name"
        by (rule normalizeArabicText_nameCell [OF cell])
      show ?thesis
      proof (cases "compareNames n ?name")
        case True
        with \<open>i < length vals\<close> inrow norm show ?thesis
          by (subst findStudentRowByName_loop.simps) (simp add: upt)
      next
        case False
        with \<open>i < length vals\<close> inrow norm
          "1.IH"(1) [OF \<open>i < length vals\<close> inrow norm False rest]
        show ?thesis
          by (subst findStudentRowByName_loop.simps) (simp add: upt)
      qed
    qed
  next
    case False
    then show ?thesis
      by (subst findStudentRowByName_loop.simps) simp
  qed
qed

lemma list_all_drop_1:
  "list_all P (drop (Suc 0) xs) = (\<forall>k \<in> {Suc 0..<length xs}. P (xs ! k))"
proof (cases xs)
  case Nil
  then show ?thesis by simp
next
  case (Cons x ys)
  have "(\<forall>k \<in> {Suc 0..<Suc (length ys)}. P ((x # ys) ! k)) =
        (\<forall>k \<in> Suc ` {0..<length ys}. P ((x # ys) ! k))"
    by (simp only: image_Suc_atLeastLessThan)
  also have "\<dots> = (\<forall>j \<in> {0..<length ys}. P (ys ! j))"
    by (simp only: ball_simps nth_Cons_Suc)
  also have "\<dots> = list_all P ys"
    by (auto simp: list_all_length)
  finally show ?thesis
    using Cons by simp
qed

lemma findStudentRowByName_first:
  assumes "list_all (\<lambda>row. nameCell (at_index row (wsStudentNameColumn ws))) (drop 1 vals)"
  shows "findStudentRowByName nfkd lc (Some ws) studentName vals =
     Inr (case List.find
                 (\<lambda>k. wsStudentNameColumn ws < int (length (vals ! k)) \<and>
                      calculateSimilarity (normalizedName nfkd lc studentName)
                        (normalizedName nfkd lc
                           (cellName (at_index (vals ! k) (wsStudentNameColumn ws)))) > 7 / 10)
                 [1..<length vals] of
            Some k \<Rightarrow> int k
          | None \<Rightarrow> - 1)"
proof -
  from assms have "\<forall>k \<in> {1..<length vals}. nameCell (at_index (vals ! k) (wsStudentNameColumn ws))"
    by (simp add: list_all_drop_1)
  from findStudentRowByName_loop_find [OF this] show ?thesis
    by (simp add: findStudentRowByName_def normalizeArabicText_def normalizedName_def
        compareNames_def)
qed

text \<open>
  The similarity of two (normalised) names is 1 when they are identical, 0.9 when the
  longer contains the shorter, and (len(longer) - levenshtein(longer, shorter)) /
  len(longer) otherwise. On a roster whose name cells are all strings (or empty), name
  matching returns the first row from row 1 on that has the name column and whose
  normalised name is more than 0.70 similar to the normalised target, and -1 if there is
  none.
\<close>

theorem findStudentRowByName_first_similar:
  assumes "list_all (\<lambda>row. nameCell (at_index row (wsStudentNameColumn ws))) (drop 1 vals)"
  shows "calculateSimilarity s1 s2 =
           (if s1 = s2 then 1
            else if sublist (if length s1 > length s2 then s2 else s1)
                            (if length s1 > length s2 then s1 else s2) then 9 / 10
            else (of_nat (length (if length s1 > length s2 then s1 else s2))
                    - of_nat (levenshtein (if length s1 > length s2 then s1 else s2)
                                          (if length s1 > length s2 then s2 else s1)))
                 / of_nat (length (if length s1 > length s2 then s1 else s2)))
         \<and> findStudentRowByName nfkd lc (Some ws) studentName vals =
             Inr (case List.find
                         (\<lambda>k. wsStudentNameColumn ws < int (length (vals ! k)) \<and>
                              calculateSimilarity (normalizedName nfkd lc studentName)
                                (normalizedName nfkd lc
                                   (cellName (at_index (vals ! k) (wsStudentNameColumn ws))))
                                > 7 / 10)
                         [1..<length vals] of
                    Some k \<Rightarrow> int k
                  | None \<Rightarrow> - 1)"
  using calculateSimilarity_cases [of s1 s2] findStudentRowByName_first [OF assms] by simp

lemma editDistance_example_names:
  "editDistance [1605, 1581, 1605, 1617, 1583] [1605, 1581, 1605, 1583 :: nat] = 1"
  "editDistance [1587, 1593, 1610, 1583] [1605, 1581, 1605, 1583 :: nat] = 3"
  by code_simp+

theorem findStudentRowByName_first_similar_witness:
  "list_all (\<lambda>row. nameCell (at_index row 1))
     (drop 1 [[Str (ascii ''ID''), Str (ascii ''Name'')],
              [Num 1, Str [1587, 1593, 1610, 1583]],
              [Num 2, Str [1605, 1581, 1605, 1617, 1583]]])
   \<and> calculateSimilarity ''kitten'' ''sitting'' = 4 / 7
   \<and> findStudentRowByName (\<lambda>s. s) (\<lambda>s. s)
        (Some \<lparr>wsStudentNameColumn = 1, wsStudentNumberColumn = 0\<rparr>) [1605, 1581, 1605, 1583]
        [[Str (ascii ''ID''), Str (ascii ''Name'')],
         [Num 1, Str [1587, 1593, 1610, 1583]],
         [Num 2, Str [1605, 1581, 1605, 1617, 1583]]] = Inr 2"
proof -
  let ?ws = "\<lparr>wsStudentNameColumn = 1, wsStudentNumberColumn = 0\<rparr>"
  let ?vals = "[[Str (ascii ''ID''), Str (ascii ''Name'')],
                [Num 1, Str [1587, 1593, 1610, 1583]],
                [Num 2, Str [1605, 1581, 1605, 1617, 1583 :: nat]]]"
  have h: "list_all (\<lambda>row. nameCell (at_index row (wsStudentNameColumn ?ws))) (drop 1 ?vals)"
    by (simp add: at_index_def)
  have "editDistance ''sitting'' ''kitten'' = 3"
    by code_simp
  then have l: "levenshtein ''sitting'' ''kitten'' = 3"
    by (simp only: editDistance_lev levenshtein_lev)
  have n: "normalizedName (\<lambda>s. s) (\<lambda>s. s) [1605, 1581, 1605, 1583] = [1605, 1581, 1605, 1583]"
      "normalizedName (\<lambda>s. s) (\<lambda>s. s) [1587, 1593, 1610, 1583] = [1587, 1593, 1610, 1583]"
      "normalizedName (\<lambda>s. s) (\<lambda>s. s) [1605, 1581, 1605, 1617, 1583] = [1605, 1581, 1605, 1617, 1583]"
    by (simp_all add: normalizedName_def normalizeString_def trim_def isSpace_def)
  have s: "calculateSimilarity [1605, 1581, 1605, 1583 :: nat] [1587, 1593, 1610, 1583] = 1 / 4"
      "calculateSimilarity [1605, 1581, 1605, 1583 :: nat] [1605, 1581, 1605, 1617, 1583] = 4 / 5"
    by (simp_all add: calculateSimilarity_def editDistance_example_names)
  from findStudentRowByName_first_similar [OF h, of "''kitten''" "''sitting''" "\<lambda>s. s" "\<lambda>s. s"
      "[1605, 1581, 1605, 1583]"] h l
  show ?thesis
    by (simp add: at_index_def upt_1_3 n s sublist_code)
qed

text \<open>
  C5 (name matching returns the first row from row 1 on whose name is more than 0.70
  similar to the target, and -1 if there is none): the values of the worksheet are
  \<open>any[][]\<close>, and a cell of the name column may hold a number. \<open>normalizeArabicText\<close>
  tests the cell with \<open>!text\<close> only and then calls \<open>text.normalize\<close>, which a number
  does not have: on the roster below, whose row 1 has the number 42 in the name column and
  whose row 2 has the name sought, the name match ends with a \<open>TypeError\<close> and returns
  no index, where row 2 is the first row whose name is similar to the target (the
  similarity is 1). The match by number on the same roster converts every cell with
  \<open>toString()\<close> first and finds row 2.
\<close>

theorem findStudentRowByName_number_cell_throws:
  "findStudentRowByName nfkd toLowerCase
     (Some \<lparr>wsStudentNameColumn = 1, wsStudentNumberColumn = 0\<rparr>) (ascii ''x'')
     [[Str (ascii ''ID''), Str (ascii ''Name'')], [Num 1, Num 42], [Num 2, Str (ascii ''x'')]]
     = Inl TypeError
   \<and> findStudentRowByNumber
     (Some \<lparr>wsStudentNameColumn = 1, wsStudentNumberColumn = 0\<rparr>) (ascii ''2'')
     [[Str (ascii ''ID''), Str (ascii ''Name'')], [Num 1, Num 42], [Num 2, Str (ascii ''x'')]]
     = Inr 2"
  by code_simp

subsection \<open>Distribution of the harvested marks\<close>

lemma takeMarks_take:
  "markIndex + n \<le> length markValues \<Longrightarrow>
     takeMarks n markValues markIndex acc = (acc @ take n (drop markIndex markValues), markIndex + n)"
proof (induction n arbitrary: markIndex acc)
  case 0
  then show ?case by simp
next
  case (Suc n)
  then have "markIndex < length markValues" by simp
  then have "take (Suc n) (drop markIndex markValues) =
             markValues ! markIndex # take n (drop (Suc markIndex) markValues)"
    by (simp add: Cons_nth_drop_Suc [symmetric])
  with Suc show ?case by simp
qed

lemma distributeMarks_map:
  "markIndex + length entries * e \<le> length markValues \<Longrightarrow>
     distributeMarks entries markValues e markIndex =
       map (\<lambda>(k, (id', nm)).
              \<lparr>number = id', name = nm,
               marks = marksOf (take e (drop (markIndex + k * e) markValues))\<rparr>)
           (enumerate 0 entries)"
proof (induction entries arbitrary: markIndex)
  case Nil
  then show ?case by simp
next
  case (Cons p rest)
  obtain id' nm where p: "p = (id', nm)" by (cases p)
  from Cons.prems have a: "markIndex + e \<le> length markValues"
    and b: "(markIndex + e) + length rest * e \<le> length markValues"
    by (simp_all add: algebra_simps)
  have "map (\<lambda>(k, (id', nm)). \<lparr>number = id', name = nm,
               marks = marksOf (take e (drop (markIndex + k * e) markValues))\<rparr>)
           (enumerate (Suc 0) rest) =
        map (\<lambda>(k, (id', nm)). \<lparr>number = id', name = nm,
               marks = marksOf (take e (drop (markIndex + e + k * e) markValues))\<rparr>)
           (enumerate 0 rest)"
    by (simp add: enumerate_Suc_eq split_def algebra_simps)
  with Cons.IH [OF b] show ?case
    by (simp add: p takeMarks_take [OF a])
qed

lemma parseInt_digitString: "digitString s \<Longrightarrow> parseInt s = Some (int (parseDigits s))"
proof -
  assume d: "digitString s"
  then obtain c r where s: "s = c # r" and c: "isDigit c" and r: "list_all isDigit r"
    by (cases s) (auto simp: digitString_def)
  from c have "\<not> isSpace c" "c \<noteq> 45" "c \<noteq> 43"
    by (auto simp: isDigit_def isSpace_def)
  moreover from c r have "takeWhile isDigit (c # r) = c # r"
    by (simp add: list_all_iff)
  ultimately show ?thesis
    by (simp add: parseInt_def s Let_def)
qed

lemma expected_bound:
  "entries \<noteq> [] \<Longrightarrow>
     length entries * expectedMarksPerStudent (length markValues) (length entries)
       \<le> length (markValues :: rat list)"
proof -
  assume "entries \<noteq> []"
  then have "expectedMarksPerStudent (length markValues) (length entries)
               \<le> length markValues div length entries"
    by (simp add: expectedMarksPerStudent_def)
  then have "length entries * expectedMarksPerStudent (length markValues) (length entries)
               \<le> length entries * (length markValues div length entries)"
    by (rule mult_le_mono2)
  also have "\<dots> \<le> length markValues"
    by simp
  finally show ?thesis .
qed

lemma assignMarksToStudents_eq:
  assumes "studentInfo \<noteq> []" "list_all (\<lambda>(id', nm). digitString id') studentInfo"
  shows "assignMarksToStudents studentInfo markValues =
     Some (map (\<lambda>(k, (id', nm)).
                  \<lparr>number = id', name = nm,
                   marks = marksOf (take (min 4 (length markValues div length studentInfo))
                              (drop (k * min 4 (length markValues div length studentInfo)) markValues))\<rparr>)
               (enumerate 0 (sort_key fst (idsOf studentInfo))))"
proof -
  let ?entries = "sort_key fst (idsOf studentInfo)"
  from assms(2) have all: "list_all (\<lambda>(id', nm). parseInt id' \<noteq> None) studentInfo"
    by (auto simp: list_all_iff parseInt_digitString)
  from assms(2) have "map (\<lambda>(id', nm). (of_int (the (parseInt id')), nm)) studentInfo
                    = idsOf studentInfo"
    by (auto simp: idsOf_def list_all_iff parseInt_digitString)
  moreover have len: "length ?entries = length studentInfo"
    by (simp add: idsOf_def)
  moreover from assms(1) have e: "expectedMarksPerStudent (length markValues) (length studentInfo)
      = min 4 (length markValues div length studentInfo)"
    by (simp add: expectedMarksPerStudent_def)
  moreover have "0 + length ?entries * min 4 (length markValues div length studentInfo)
                   \<le> length markValues"
    using expected_bound [of studentInfo markValues] assms(1) by (simp add: e idsOf_def)
  ultimately show ?thesis
    using all distributeMarks_map [of 0 ?entries "min 4 (length markValues div length studentInfo)" markValues]
    by (simp add: assignMarksToStudents_def Let_def)
qed

lemma assignedMarks_marksOf_take: "assignedMarks (marksOf l) = take 4 l"
  by (cases l; cases "tl l"; cases "tl (tl l)"; cases "tl (tl (tl l))")
    (auto simp: marksOf_def slot_def)

lemma assignedMarks_marksOf: "length l \<le> 4 \<Longrightarrow> assignedMarks (marksOf l) = l"
  by (simp add: assignedMarks_marksOf_take del: assignedMarks.simps)

lemma concat_chunks:
  "concat (map (\<lambda>k. take m (drop (k * m) xs)) [0..<n]) = take (n * m) xs"
proof (induction n)
  case 0
  show ?case by simp
next
  case (Suc n)
  have "Suc n * m = n * m + m"
    by simp
  then have "take (Suc n * m) xs = take (n * m) xs @ take m (drop (n * m) xs)"
    by (simp only: take_add)
  with Suc show ?case by simp
qed

lemma map_enumerate_0:
  "map (\<lambda>(k, x). f k x) (enumerate 0 xs) = map (\<lambda>k. f k (xs ! k)) [0..<length xs]"
  by (rule nth_equalityI) (simp_all add: nth_enumerate_eq)

text \<open>
  C9: for a non-empty student-info mapping (its keys strings of digits) and any harvested
  mark sequence, the entries are sorted ascending by numeric id; with marksPerStudent =
  min(4, floor(total / studentCount)), the k-th student of that order gets the values
  k * marksPerStudent, ..., k * marksPerStudent + marksPerStudent - 1 of the sequence,
  in order, in fard1, fard2, fard3, activities, the other slots null; the values from
  studentCount * marksPerStudent on are not used.
\<close>

theorem assignMarksToStudents_distribution:
  assumes "studentInfo \<noteq> []" and "list_all (\<lambda>(id', nm). digitString id') studentInfo"
  shows "let m = min 4 (length markValues div length studentInfo);
             studentEntries = sort_key fst (idsOf studentInfo);
             students = map (\<lambda>(k, (id', nm)).
                               \<lparr>number = id', name = nm,
                                marks = marksOf (take m (drop (k * m) markValues))\<rparr>)
                            (enumerate 0 studentEntries)
         in assignMarksToStudents studentInfo markValues = Some students
            \<and> sorted (map number students)
            \<and> list_all (\<lambda>s. length (assignedMarks (marks s)) = m) students
            \<and> concat (map (\<lambda>s. assignedMarks (marks s)) students)
                = take (length studentInfo * m) markValues"
proof -
  define m where "m = min 4 (length markValues div length studentInfo)"
  define es where "es = sort_key fst (idsOf studentInfo)"
  define students where "students =
     map (\<lambda>(k, (id', nm)). \<lparr>number = id', name = nm,
            marks = marksOf (take m (drop (k * m) markValues))\<rparr>) (enumerate 0 es)"
  have len: "length es = length studentInfo"
    by (simp add: es_def idsOf_def)
  have m4: "m \<le> 4"
    by (simp add: m_def)
  have bound: "length studentInfo * m \<le> length markValues"
  proof -
    have "length studentInfo * m \<le> length studentInfo * (length markValues div length studentInfo)"
      by (rule mult_le_mono2) (simp add: m_def)
    also have "\<dots> \<le> length markValues" by simp
    finally show ?thesis .
  qed
  have st: "students = map (\<lambda>k. \<lparr>number = fst (es ! k), name = snd (es ! k),
            marks = marksOf (take m (drop (k * m) markValues))\<rparr>) [0..<length es]"
    unfolding students_def
    using map_enumerate_0 [of "\<lambda>k p. \<lparr>number = fst p, name = snd p,
            marks = marksOf (take m (drop (k * m) markValues))\<rparr>" es]
    by (simp add: split_def)
  have 1: "assignMarksToStudents studentInfo markValues = Some students"
    unfolding students_def es_def m_def by (rule assignMarksToStudents_eq [OF assms])
  have "map number students = map fst es"
    unfolding st by (rule nth_equalityI) simp_all
  then have 2: "sorted (map number students)"
    by (simp add: es_def)
  have chunk: "length (take m (drop (k * m) markValues)) = m" if "k < length es" for k
  proof -
    from that have "Suc k \<le> length studentInfo" by (simp add: len)
    then have "Suc k * m \<le> length studentInfo * m" by (rule mult_le_mono1)
    with bound show ?thesis by simp
  qed
  have 3: "list_all (\<lambda>s. length (assignedMarks (marks s)) = m) students"
    unfolding st using m4 chunk by (simp add: list_all_iff assignedMarks_marksOf del: assignedMarks.simps)
  have "map (\<lambda>s. assignedMarks (marks s)) students
          = map (\<lambda>k. take m (drop (k * m) markValues)) [0..<length es]"
    unfolding st using m4 by (simp add: assignedMarks_marksOf del: assignedMarks.simps)
  then have 4: "concat (map (\<lambda>s. assignedMarks (marks s)) students)
                  = take (length studentInfo * m) markValues"
    by (simp add: concat_chunks len)
  from 1 2 3 4 show ?thesis
    unfolding Let_def m_def [symmetric] es_def [symmetric] students_def [symmetric] by blast
qed

theorem assignMarksToStudents_distribution_witness:
  "[(ascii ''10'', ascii ''c''), (ascii ''2'', ascii ''a''), (ascii ''07'', ascii ''b'')] \<noteq> []
   \<and> list_all (\<lambda>(id', nm). digitString id')
        [(ascii ''10'', ascii ''c''), (ascii ''2'', ascii ''a''), (ascii ''07'', ascii ''b'')]
   \<and> assignMarksToStudents
        [(ascii ''10'', ascii ''c''), (ascii ''2'', ascii ''a''), (ascii ''07'', ascii ''b'')]
        [11, 12, 13, 14, 15, 16, 17, 18, 19, 20, 5] =
      Some [\<lparr>number = 2, name = ascii ''a'',
              marks = \<lparr>fard1 = Some 11, fard2 = Some 12, fard3 = Some 13, activities = None\<rparr>\<rparr>,
            \<lparr>number = 7, name = ascii ''b'',
              marks = \<lparr>fard1 = Some 14, fard2 = Some 15, fard3 = Some 16, activities = None\<rparr>\<rparr>,
            \<lparr>number = 10, name = ascii ''c'',
              marks = \<lparr>fard1 = Some 17, fard2 = Some 18, fard3 = Some 19, activities = None\<rparr>\<rparr>]"
proof -
  let ?info = "[(ascii ''10'', ascii ''c''), (ascii ''2'', ascii ''a''), (ascii ''07'', ascii ''b'')]"
  have a: "?info \<noteq> []"
    by simp
  have b: "list_all (\<lambda>(id', nm). digitString id') ?info"
    by (simp add: digitString_def ascii_def isDigit_def)
  from a b assignMarksToStudents_distribution [OF a b, of "[11, 12, 13, 14, 15, 16, 17, 18, 19, 20, 5]"]
  show ?thesis
    by (simp add: Let_def idsOf_def parseDigits_def ascii_def marksOf_def slot_def enumerate_eq_zip upt_rec)
qed

subsection \<open>Numeric cells\<close>

lemma not_digit_46: "\<not> isDigit 46" "\<not> isDigit 44"
  by (simp_all add: isDigit_def)

lemma isSimpleNumber_plainDecimal: "isSimpleNumber s = plainDecimal s"
proof
  assume a: "isSimpleNumber s"
  let ?ip = "takeWhile isDigit s" and ?rest = "dropWhile isDigit s"
  have s: "s = ?ip @ ?rest" by simp
  have ip: "?ip \<noteq> []" "list_all isDigit ?ip"
    using a by (auto simp: isSimpleNumber_def Let_def list_all_iff dest: set_takeWhileD)
  show "plainDecimal s"
  proof (cases "?rest = []")
    case True
    with s have "s = ?ip" by simp
    with ip show ?thesis unfolding plainDecimal_def by blast
  next
    case False
    with a have r: "hd ?rest = 46" "tl ?rest \<noteq> []" "list_all isDigit (tl ?rest)"
      by (auto simp: isSimpleNumber_def Let_def)
    from False r(1) have "?rest = [46] @ tl ?rest"
      by (cases ?rest) auto
    with s have "s = ?ip @ [46] @ tl ?rest" by simp
    with ip r show ?thesis unfolding plainDecimal_def by blast
  qed
next
  assume "plainDecimal s"
  then obtain ip fp where ip: "ip \<noteq> []" "list_all isDigit ip"
    and s: "s = ip \<or> (fp \<noteq> [] \<and> list_all isDigit fp \<and> s = ip @ [46] @ fp)"
    unfolding plainDecimal_def by blast
  from s show "isSimpleNumber s"
  proof
    assume e: "s = ip"
    from ip have tw: "takeWhile isDigit ip = ip" "dropWhile isDigit ip = []"
      by (simp_all add: list_all_iff)
    show ?thesis
      unfolding isSimpleNumber_def Let_def e tw using ip(1) by simp
  next
    assume f: "fp \<noteq> [] \<and> list_all isDigit fp \<and> s = ip @ [46] @ fp"
    with ip have "takeWhile isDigit s = ip" "dropWhile isDigit s = 46 # fp"
      by (simp_all add: list_all_iff takeWhile_tail not_digit_46 dropWhile_append3)
    with ip f show ?thesis
      by (simp add: isSimpleNumber_def Let_def)
  qed
qed

lemma fractionAt_SomeD:
  "fractionAt s \<noteq> None \<Longrightarrow> \<exists>b c v. s = b # c # v \<and> (b = 46 \<or> b = 44) \<and> isDigit c"
  by (cases s; cases "tl s") (auto simp: fractionAt_def split: if_splits)

lemma markMatchAt_containsMarkToken: "markMatchAt s \<noteq> None \<Longrightarrow> containsMarkToken s"
proof -
  assume a: "markMatchAt s \<noteq> None"
  show ?thesis
  proof (cases "2 \<le> length s \<and> list_all isDigit (take 2 s) \<and> fractionAt (drop 2 s) \<noteq> None")
    case True
    then have "fractionAt (drop 2 s) \<noteq> None"
      by blast
    from fractionAt_SomeD [OF this]
    obtain b c v where d: "drop 2 s = b # c # v" "b = 46 \<or> b = 44" "isDigit c"
      by blast
    from True obtain x y where t: "take 2 s = [x, y]" "isDigit y"
      by (cases s; cases "tl s") auto
    have "s = take 2 s @ drop 2 s" by simp
    with d t have "s = [x] @ y # b # c # v" by simp
    with d t show ?thesis unfolding containsMarkToken_def by blast
  next
    case False
    with a have f: "1 \<le> length s" "list_all isDigit (take 1 s)" "fractionAt (drop 1 s) \<noteq> None"
      by (auto simp: markMatchAt_def split: if_splits)
    from fractionAt_SomeD [OF f(3)]
    obtain b c v where d: "drop 1 s = b # c # v" "b = 46 \<or> b = 44" "isDigit c"
      by blast
    from f obtain x where t: "take 1 s = [x]" "isDigit x"
      by (cases s) auto
    have "s = take 1 s @ drop 1 s" by simp
    with d t have "s = [] @ x # b # c # v" by simp
    with d t show ?thesis unfolding containsMarkToken_def by blast
  qed
qed

lemma markMatchAt_head:
  "isDigit a \<Longrightarrow> b = 46 \<or> b = 44 \<Longrightarrow> isDigit c \<Longrightarrow> markMatchAt (a # b # c # v) \<noteq> None"
  by (auto simp: markMatchAt_def fractionAt_def not_digit_46)

lemma containsMarkToken_Cons: "containsMarkToken s \<Longrightarrow> containsMarkToken (x # s)"
  unfolding containsMarkToken_def by (metis append_Cons)

lemma findMarkMatch_containsMarkToken: "(findMarkMatch s \<noteq> None) = containsMarkToken s"
proof
  show "findMarkMatch s \<noteq> None \<Longrightarrow> containsMarkToken s"
  proof (induction s)
    case Nil
    then show ?case by simp
  next
    case (Cons x s)
    show ?case
    proof (cases "markMatchAt (x # s)")
      case None
      with Cons show ?thesis by (simp add: containsMarkToken_Cons)
    next
      case (Some m)
      then show ?thesis by (simp add: markMatchAt_containsMarkToken)
    qed
  qed
next
  assume "containsMarkToken s"
  then obtain u a b c v where s: "s = u @ a # b # c # v"
    and d: "isDigit a" "b = 46 \<or> b = 44" "isDigit c"
    unfolding containsMarkToken_def by blast
  show "findMarkMatch s \<noteq> None"
    unfolding s
  proof (induction u)
    case Nil
    from markMatchAt_head [OF d, of v] obtain m where "markMatchAt (a # b # c # v) = Some m"
      by auto
    then show ?case by simp
  next
    case (Cons x u)
    then show ?case by (cases "markMatchAt (x # u @ a # b # c # v)") simp_all
  qed
qed

lemma parseNumericValue_None_iff:
  "(parseNumericValue s \<noteq> None) = (plainDecimal (cleaned s) \<or> containsMarkToken (cleaned s))"
  using findMarkMatch_containsMarkToken [of "cleaned s"]
  by (auto simp: parseNumericValue_def cleaned_def Let_def isSimpleNumber_plainDecimal
      split: option.splits)

lemma parseNumericValue_Some_iff:
  "(\<exists>v. parseNumericValue s = Some v) = (plainDecimal (cleaned s) \<or> containsMarkToken (cleaned s))"
  using parseNumericValue_None_iff [of s] by auto

lemma cellsOf_numericAsParsed: "list_all numericAsParsed (cellsOf r c segs)"
  by (induction segs arbitrary: c)
    (simp_all add: Let_def numericAsParsed_def parseNumericValue_Some_iff)

lemma parseLine_numericAsParsed: "list_all numericAsParsed (parseLine line r)"
  by (simp add: parseLine_def cellsOf_numericAsParsed)

lemma cleaned_Nil: "cleaned [] = []"
  by (simp add: cleaned_def trim_def)

lemma emptyCell_numericAsParsed: "numericAsParsed (emptyCell r c)"
  by (simp add: numericAsParsed_def emptyCell_def cleaned_Nil plainDecimal_def containsMarkToken_def
      parseNumericValue_def isSimpleNumber_def trim_def)

lemma numericAsParsed_position:
  "numericAsParsed (cell\<lparr>position := p\<rparr>) = numericAsParsed cell"
  by (simp add: numericAsParsed_def)

lemma list_all_enumerate_snd:
  "list_all (\<lambda>p. Q (snd p)) (enumerate n xs) = list_all Q xs"
  by (induction xs arbitrary: n) simp_all

lemma refineGrid_row_numericAsParsed:
  assumes "list_all numericAsParsed r"
  shows "list_all numericAsParsed
       (map (\<lambda>(colIndex, cell). cell\<lparr>position := \<lparr>row = rowIndex, col = colIndex\<rparr>\<rparr>) (enumerate 0 r)
        @ map (emptyCell rowIndex) [length r..<maxColumns])"
proof -
  have "list_all numericAsParsed
          (map (\<lambda>(colIndex, cell). cell\<lparr>position := \<lparr>row = rowIndex, col = colIndex\<rparr>\<rparr>)
             (enumerate 0 r))"
    using assms
    by (simp add: list.pred_map comp_def split_def numericAsParsed_position
        list_all_enumerate_snd)
  moreover have "list_all numericAsParsed (map (emptyCell rowIndex) [length r..<maxColumns])"
    by (simp add: list.pred_map comp_def emptyCell_numericAsParsed list.pred_True)
  ultimately show ?thesis
    by simp
qed

lemma refineGrid_numericAsParsed:
  assumes "list_all (list_all numericAsParsed) g"
  shows "list_all (list_all numericAsParsed) (refineGrid g)"
proof -
  let ?m = "foldl (\<lambda>m r. max m (length r)) 0 g"
  let ?f = "\<lambda>p. map (\<lambda>(colIndex, cell). cell\<lparr>position := \<lparr>row = fst p, col = colIndex\<rparr>\<rparr>)
                  (enumerate 0 (snd p))
                @ map (emptyCell (fst p)) [length (snd p)..<?m]"
  have "list_all (\<lambda>p. list_all numericAsParsed (snd p)) (enumerate 0 g)"
    using assms by (simp add: list_all_enumerate_snd)
  then have "list_all (\<lambda>p. list_all numericAsParsed (?f p)) (enumerate 0 g)"
    by (rule list.pred_mono_strong) (rule refineGrid_row_numericAsParsed)
  then have "list_all (list_all numericAsParsed) (map ?f (enumerate 0 g))"
    by (simp add: list.pred_map comp_def)
  then show ?thesis
    by (simp add: refineGrid_def Let_def split_def assms)
qed

lemma createPreliminaryGrid_numericAsParsed:
  "list_all (list_all numericAsParsed) (createPreliminaryGrid lines)"
proof (cases "dataStartLine lines")
  case None
  then show ?thesis by (simp add: createPreliminaryGrid_def)
next
  case (Some start)
  have "list_all (list_all numericAsParsed)
          (map (\<lambda>(rowIndex, lineIndex). parseLine (drop start lines ! lineIndex) rowIndex)
             (enumerate 0 (tableRowIndices (drop start lines))))"
    by (simp add: list_all_iff split_def parseLine_numericAsParsed [unfolded list_all_iff])
  then show ?thesis
    by (simp add: createPreliminaryGrid_def Some Let_def refineGrid_numericAsParsed)
qed

text \<open>
  C8, as stated (a cell is numeric exactly when its cleaned segment is a plain integer or
  decimal): the header line with two keywords and the line "1  <name> 14.50  <name>" give
  a grid whose row 1 has the segment "<name> 14.50" as a numeric cell of value 14.5,
  although the segment is no plain decimal.
\<close>

theorem parseLine_numeric_by_token:
  "createPreliminaryGrid
     [kw_raqm @ ascii ''  '' @ kw_ism,
      ascii ''1  '' @ [0x623, 0x62D, 0x645, 0x62F] @ ascii '' 14.50  '' @ [0x62D, 0x633, 0x646]]
   = [[\<lparr>cellText = kw_raqm, position = \<lparr>row = 0, col = 0\<rparr>, isNumeric = False, cellValue = None\<rparr>,
       \<lparr>cellText = kw_ism, position = \<lparr>row = 0, col = 1\<rparr>, isNumeric = False, cellValue = None\<rparr>,
       \<lparr>cellText = [], position = \<lparr>row = 0, col = 2\<rparr>, isNumeric = False, cellValue = None\<rparr>],
      [\<lparr>cellText = ascii ''1'', position = \<lparr>row = 1, col = 0\<rparr>, isNumeric = True,
          cellValue = Some 1\<rparr>,
       \<lparr>cellText = [0x623, 0x62D, 0x645, 0x62F] @ ascii '' 14.50'',
          position = \<lparr>row = 1, col = 1\<rparr>, isNumeric = True, cellValue = Some (29 / 2)\<rparr>,
       \<lparr>cellText = [0x62D, 0x633, 0x646], position = \<lparr>row = 1, col = 2\<rparr>, isNumeric = False,
          cellValue = None\<rparr>]]
   \<and> \<not> plainDecimal (cleaned ([0x623, 0x62D, 0x645, 0x62F] @ ascii '' 14.50''))"
proof -
  have "\<not> plainDecimal (cleaned ([0x623, 0x62D, 0x645, 0x62F] @ ascii '' 14.50''))"
    unfolding isSimpleNumber_plainDecimal [symmetric] by code_simp
  moreover have "createPreliminaryGrid
     [kw_raqm @ ascii ''  '' @ kw_ism,
      ascii ''1  '' @ [0x623, 0x62D, 0x645, 0x62F] @ ascii '' 14.50  '' @ [0x62D, 0x633, 0x646]]
   = [[\<lparr>cellText = kw_raqm, position = \<lparr>row = 0, col = 0\<rparr>, isNumeric = False, cellValue = None\<rparr>,
       \<lparr>cellText = kw_ism, position = \<lparr>row = 0, col = 1\<rparr>, isNumeric = False, cellValue = None\<rparr>,
       \<lparr>cellText = [], position = \<lparr>row = 0, col = 2\<rparr>, isNumeric = False, cellValue = None\<rparr>],
      [\<lparr>cellText = ascii ''1'', position = \<lparr>row = 1, col = 0\<rparr>, isNumeric = True,
          cellValue = Some 1\<rparr>,
       \<lparr>cellText = [0x623, 0x62D, 0x645, 0x62F] @ ascii '' 14.50'',
          position = \<lparr>row = 1, col = 1\<rparr>, isNumeric = True, cellValue = Some (29 / 2)\<rparr>,
       \<lparr>cellText = [0x62D, 0x633, 0x646], position = \<lparr>row = 1, col = 2\<rparr>, isNumeric = False,
          cellValue = None\<rparr>]]"
    by code_simp
  ultimately show ?thesis
    by (rule conjI [rotated])
qed

text \<open>
  C8, amended: every cell of the grid (and of every parsed line) is classified numeric if
  and only if its segment, after replacing commas by periods and trimming, is a plain
  integer or decimal or contains a mark-like token (a digit, a period, a digit) somewhere;
  exactly the numeric cells have a numeric value, the others have the value null.
\<close>

theorem cells_numeric_iff_plain_or_token:
  "list_all (list_all numericAsParsed) (createPreliminaryGrid lines)
   \<and> list_all numericAsParsed (parseLine line rowIndex)"
  by (simp add: createPreliminaryGrid_numericAsParsed parseLine_numericAsParsed)

subsection \<open>The columns of the table structure\<close>

lemma headerStep_ok:
  assumes "columnsOk k st"
  shows "columnsOk (Suc k) (headerStep lc hdr k st)"
proof -
  obtain i n m where st: "st = (i, n, m)" by (cases st)
  from assms have m: "sorted_wrt (<) m" "list_all (\<lambda>c. c < k) m"
    by (simp_all add: columnsOk_def st)
  then have "sorted_wrt (<) (m @ [k])" "list_all (\<lambda>c. c < Suc k) (m @ [k])"
    "list_all (\<lambda>c. c < Suc k) m"
    by (auto simp: sorted_wrt_append list_all_iff)
  with assms show ?thesis
    by (auto simp: columnsOk_def st headerStep_def Let_def)
qed

lemma headerFold_ok:
  "columnsOk k (fold (headerStep lc hdr) [0..<k] (- 1, - 1, []))"
proof (induction k)
  case 0
  show ?case by (simp add: columnsOk_def)
next
  case (Suc k)
  then show ?case by (simp add: headerStep_ok)
qed

lemma headerPass_ok:
  assumes "hr < length grid \<Longrightarrow> length (grid ! hr) = w"
  shows "columnsOk w (headerPass lc grid hr)"
proof (cases "hr < length grid")
  case True
  with assms headerFold_ok [of "length (grid ! hr)" lc "grid ! hr"] show ?thesis
    by (simp add: headerPass_def)
next
  case False
  then show ?thesis by (simp add: headerPass_def columnsOk_def)
qed

lemma length_increment [simp]: "length (increment counts c) = length counts"
  by (simp add: increment_def)

lemma countCell_width: "countsWidth n counts \<Longrightarrow> countsWidth n (countCell p counts)"
  by (cases p) (auto simp: countsWidth_def countCell_def Let_def split: option.splits)

lemma fold_countCell_width:
  "countsWidth n counts \<Longrightarrow> countsWidth n (fold countCell ps counts)"
  by (induction ps arbitrary: counts) (simp_all add: countCell_width)

lemma fold_rows_width:
  "countsWidth n counts \<Longrightarrow>
     countsWidth n (fold (\<lambda>r counts. fold countCell (enumerate 0 r) counts) rows counts)"
  by (induction rows arbitrary: counts) (simp_all add: fold_countCell_width)

lemma countRows_width: "countsWidth n (countRows n rows)"
  unfolding countRows_def by (rule fold_rows_width) (simp add: countsWidth_def)

lemma candidates_index:
  "c \<in> set (candidates counts keep) \<Longrightarrow> fst c < length counts"
  by (auto simp: candidates_def in_set_enumerate_eq)

lemma candidates_hd:
  "candidates counts keep = c # cs \<Longrightarrow> fst c < length counts"
  using candidates_index [of c counts keep] by simp

lemma filter_upt_ok:
  "sorted_wrt (<) (filter P [0..<w]) \<and> list_all (\<lambda>c. c < w) (filter P [0..<w])"
  by (simp add: list_all_iff sorted_wrt_filter)

lemma contentPass_ok:
  assumes "columnsOk w st" "0 < w"
  shows "columnsOk w (contentPass grid hr w st)"
    and "fst (contentPass grid hr w st) \<noteq> - 1"
proof -
  obtain i n m where st: "st = (i, n, m)" by (cases st)
  let ?counts = "countRows w (drop (hr + 1) grid)"
  have wd: "length (idPatternCounts ?counts) = w" "length (arabicTextCounts ?counts) = w"
    using countRows_width [of w "drop (hr + 1) grid"] by (simp_all add: countsWidth_def)
  define i' where "i' = (if i = - 1 then
                  (case candidates (idPatternCounts ?counts) (\<lambda>index. True) of
                     c # cs \<Rightarrow> int (fst c) | [] \<Rightarrow> 0)
                else i)"
  define n' where "n' = (if n = - 1 then
                  (case candidates (arabicTextCounts ?counts) (\<lambda>index. int index \<noteq> i') of
                     c # cs \<Rightarrow> int (fst c) | [] \<Rightarrow> - 1)
                else n)"
  from assms have i: "i = - 1 \<or> (0 \<le> i \<and> i < int w)" and n: "n = - 1 \<or> (0 \<le> n \<and> n < int w)"
    and m: "sorted_wrt (<) m" "list_all (\<lambda>c. c < w) m"
    by (simp_all add: columnsOk_def st)
  have i'_ok: "0 \<le> i' \<and> i' < int w"
  proof (cases "i = - 1")
    case True
    show ?thesis
    proof (cases "candidates (idPatternCounts ?counts) (\<lambda>index. True)")
      case Nil
      with True assms(2) show ?thesis by (simp add: i'_def)
    next
      case (Cons c cs)
      from candidates_hd [OF Cons] wd True Cons show ?thesis by (simp add: i'_def)
    qed
  next
    case False
    with i show ?thesis by (simp add: i'_def)
  qed
  have n'_ok: "n' = - 1 \<or> (0 \<le> n' \<and> n' < int w)"
  proof (cases "n = - 1")
    case True
    show ?thesis
    proof (cases "candidates (arabicTextCounts ?counts) (\<lambda>index. int index \<noteq> i')")
      case Nil
      with True show ?thesis by (simp add: n'_def)
    next
      case (Cons c cs)
      from candidates_hd [OF Cons] wd True Cons show ?thesis by (simp add: n'_def)
    qed
  next
    case False
    with n show ?thesis by (simp add: n'_def)
  qed
  have res: "contentPass grid hr w st =
      (i', n',
       if length m = 0 then
         (let inRange = filter (\<lambda>colIndex.
                 \<not> (int colIndex = i' \<or> int colIndex = n') \<and>
                 (of_nat (markRangeCounts ?counts ! colIndex) :: rat)
                   > of_nat (length (drop (hr + 1) grid)) * 3 / 10) [0..<w]
          in if length inRange = 0
             then filter (\<lambda>colIndex. \<not> (int colIndex = i' \<or> int colIndex = n') \<and>
                            numericCounts ?counts ! colIndex > 0) [0..<w]
             else inRange)
       else m)"
    by (simp add: contentPass_def st Let_def i'_def n'_def)
  show "columnsOk w (contentPass grid hr w st)"
    unfolding res using i'_ok n'_ok m filter_upt_ok
    by (auto simp: columnsOk_def Let_def)
  show "fst (contentPass grid hr w st) \<noteq> - 1"
    unfolding res using i'_ok by simp
qed

lemma bothPasses_ok:
  assumes "hr < length grid \<Longrightarrow> length (grid ! hr) = w" "0 < w"
  shows "columnsOk w (bothPasses lc grid hr w)"
  using headerPass_ok [of hr grid w lc, OF assms(1)] contentPass_ok(1) [OF _ assms(2)]
  by (auto simp: bothPasses_def Let_def split: prod.splits)

lemma finalizeColumns_ok:
  assumes "columnsOk w st" "0 < w"
  shows "case finalizeColumns w st of (i, n, m) \<Rightarrow>
           0 \<le> i \<and> i < int w \<and> ((0 \<le> n \<and> n < int w) \<or> n = 1) \<and>
           sorted_wrt (<) m \<and> list_all (\<lambda>c. c < w) m"
proof -
  obtain i n m where st: "st = (i, n, m)" by (cases st)
  from assms have i: "i = - 1 \<or> (0 \<le> i \<and> i < int w)" and n: "n = - 1 \<or> (0 \<le> n \<and> n < int w)"
    and m: "sorted_wrt (<) m" "list_all (\<lambda>c. c < w) m"
    by (simp_all add: columnsOk_def st)
  from m(1) have "sort m = m"
    by (simp add: strict_sorted_iff sort_key_id_if_sorted)
  with i n m assms(2) filter_upt_ok show ?thesis
    by (auto simp: finalizeColumns_def st Let_def)
qed

lemma foldl_max_ge: "m \<le> foldl (\<lambda>m r. max m (length r)) m g"
  by (induction g arbitrary: m) (auto intro: order_trans [OF max.cobounded1])

lemma foldl_max_row: "r \<in> set g \<Longrightarrow> length r \<le> foldl (\<lambda>m r. max m (length r)) m g"
proof (induction g arbitrary: m)
  case Nil
  then show ?case by simp
next
  case (Cons x g)
  show ?case
  proof (cases "r = x")
    case True
    have "length x \<le> max m (length x)" by simp
    also have "\<dots> \<le> foldl (\<lambda>m r. max m (length r)) (max m (length x)) g"
      by (rule foldl_max_ge)
    finally show ?thesis using True by simp
  next
    case False
    with Cons show ?thesis by simp
  qed
qed

lemma refineGrid_row_length:
  assumes "r \<in> set (refineGrid g)" "g \<noteq> []"
  shows "length r = foldl (\<lambda>m r. max m (length r)) 0 g"
proof -
  from assms obtain k where k: "k < length g"
    and r: "r = map (\<lambda>(colIndex, cell). cell\<lparr>position := \<lparr>row = k, col = colIndex\<rparr>\<rparr>)
                  (enumerate 0 (g ! k))
              @ map (emptyCell k) [length (g ! k)..<foldl (\<lambda>m r. max m (length r)) 0 g]"
    by (auto simp: refineGrid_def Let_def in_set_enumerate_eq)
  from k have "g ! k \<in> set g"
    by simp
  from foldl_max_row [OF this, of 0] show ?thesis
    by (simp add: r)
qed

lemma refineGrid_rectangular: "rectangular (refineGrid g)"
proof (cases "g = []")
  case True
  then show ?thesis by (simp add: refineGrid_def rectangular_def)
next
  case False
  then have ne: "refineGrid g \<noteq> []"
    by (cases g) (simp_all add: refineGrid_def Let_def)
  then have "hd (refineGrid g) \<in> set (refineGrid g)"
    by simp
  from refineGrid_row_length [OF this False] refineGrid_row_length [OF _ False]
  show ?thesis
    by (simp add: rectangular_def list_all_iff)
qed

lemma findHeaderRow_less: "grid \<noteq> [] \<Longrightarrow> findHeaderRow lc grid < length grid"
  by (auto simp: findHeaderRow_def split: option.splits dest!: find_Some_mem)

text \<open>
  C2 (id column, name column and mark columns pairwise distinct, each a valid column
  index): \<open>identifyColumns\<close> keeps the three roles apart where it chooses by content (the
  name candidates exclude the id column, the two loops for the mark columns and the last
  fallback skip the id and the name column), and its last step is commented "Ensure we
  have valid values". But the default 1 for the name column is applied after the mark
  columns were chosen, and without a look at the width of the grid. On the three lines of
  the specification's Scenario A the first line is no table row, the grid holds the two
  student rows in four columns (name, number, two marks), the header pass finds nothing,
  the content pass takes columns 1, 2, 3 as mark columns while the name column is still
  open, and the default then makes column 1 the name column as well. On the single line
  of the keyword for "number" the grid has one column and the name column defaults to 1,
  which is no column of the grid.
\<close>

theorem detectTable_name_column_default:
  "map_option (\<lambda>ts. (studentIdColumn ts, studentNameColumn ts, markColumns ts, colCount ts))
     (detectTable (\<lambda>s. s) scenarioA) = Some (0, 1, [1, 2, 3], 4)
   \<and> map_option (\<lambda>ts. (studentIdColumn ts, studentNameColumn ts, markColumns ts, colCount ts))
     (detectTable (\<lambda>s. s) [kw_raqm]) = Some (0, 1, [], 1)"
  by code_simp

text \<open>
  What \<open>identifyTableStructure\<close> does ensure, for every non-empty rectangular grid with
  at least one column (the grids \<open>createPreliminaryGrid\<close> returns): the header row is a row
  of the grid, the id column is a valid column index, the name column is a valid column
  index or the default 1, and the mark columns are valid column indices in strictly
  ascending order (so distinct from one another); the id column is 0 and the name column 1
  where the two passes left them unresolved.
\<close>

theorem identifyTableStructure_columns:
  assumes "grid \<noteq> []" "rectangular grid" "0 < length (hd grid)"
  shows "\<exists>ts. identifyTableStructure lc grid = Some ts
     \<and> cells ts = grid \<and> rowCount ts = length grid \<and> colCount ts = length (hd grid)
     \<and> headerRow ts < rowCount ts
     \<and> 0 \<le> studentIdColumn ts \<and> studentIdColumn ts < int (colCount ts)
     \<and> ((0 \<le> studentNameColumn ts \<and> studentNameColumn ts < int (colCount ts))
          \<or> studentNameColumn ts = 1)
     \<and> list_all (\<lambda>c. c < colCount ts) (markColumns ts)
     \<and> sorted_wrt (<) (markColumns ts)
     \<and> (case bothPasses lc grid (headerRow ts) (colCount ts) of
           (i, n, m) \<Rightarrow>
             studentIdColumn ts = (if i = - 1 then 0 else i) \<and>
             studentNameColumn ts = (if n = - 1 then 1 else n))"
proof -
  let ?hr = "findHeaderRow lc grid" and ?w = "length (hd grid)"
  from assms(1) obtain firstRow otherRows where g: "grid = firstRow # otherRows"
    by (cases grid) auto
  have hr: "?hr < length grid"
    by (rule findHeaderRow_less [OF assms(1)])
  with assms(2) have len: "length (grid ! ?hr) = ?w"
    by (simp add: rectangular_def list_all_length)
  obtain i n m where fin: "finalizeColumns ?w (bothPasses lc grid ?hr ?w) = (i, n, m)"
    by (cases "finalizeColumns ?w (bothPasses lc grid ?hr ?w)")
  from finalizeColumns_ok [OF bothPasses_ok [of ?hr grid ?w lc, OF len assms(3)] assms(3)] fin
  have ok: "0 \<le> i \<and> i < int ?w \<and> ((0 \<le> n \<and> n < int ?w) \<or> n = 1) \<and>
           sorted_wrt (<) m \<and> list_all (\<lambda>c. c < ?w) m"
    by simp
  from fin have dflt: "case bothPasses lc grid ?hr ?w of
           (i0, n0, m0) \<Rightarrow> i = (if i0 = - 1 then 0 else i0) \<and> n = (if n0 = - 1 then 1 else n0)"
    by (auto simp: finalizeColumns_def Let_def split: prod.splits)
  have "identifyTableStructure lc grid =
          Some \<lparr>headerRow = ?hr, studentIdColumn = i, studentNameColumn = n, markColumns = m,
                rowCount = length grid, colCount = ?w, cells = grid\<rparr>"
    using fin by (simp add: identifyTableStructure_def identifyColumns_def g Let_def)
  with ok hr dflt show ?thesis
    by simp
qed

theorem identifyTableStructure_columns_witness:
  "createPreliminaryGrid scenarioA \<noteq> []
   \<and> rectangular (createPreliminaryGrid scenarioA)
   \<and> 0 < length (hd (createPreliminaryGrid scenarioA))
   \<and> (\<exists>ts. identifyTableStructure (\<lambda>s. s) (createPreliminaryGrid scenarioA) = Some ts
         \<and> colCount ts = 4 \<and> studentIdColumn ts = 0 \<and> studentNameColumn ts = 1
         \<and> markColumns ts = [1, 2, 3])"
proof -
  have a: "createPreliminaryGrid scenarioA \<noteq> []"
    by code_simp
  have b: "rectangular (createPreliminaryGrid scenarioA)"
    by code_simp
  have c: "0 < length (hd (createPreliminaryGrid scenarioA))"
    by code_simp
  have d: "map_option (\<lambda>ts. (colCount ts, studentIdColumn ts, studentNameColumn ts, markColumns ts))
             (identifyTableStructure (\<lambda>s. s) (createPreliminaryGrid scenarioA))
           = Some (4, 0, 1, [1, 2, 3])"
    by code_simp
  from identifyTableStructure_columns [OF a b c, of "\<lambda>s. s"] a b c d show ?thesis
    by auto
qed

subsection \<open>The pattern-based and the basic extractor keep marks between 0 and 20\<close>

lemma assignedMarks_marksOf_subset: "set (assignedMarks (marksOf l)) \<subseteq> set l"
  unfolding assignedMarks_marksOf_take by (rule set_take_subset)

lemma extractMarkValues_range: "list_all inMarkRange (extractMarkValues lines)"
  unfolding extractMarkValues_def list_all_iff by auto

lemma setProperty_keys:
  "list_all (\<lambda>(k, v). digitString k) studentInfo \<Longrightarrow> digitString k \<Longrightarrow>
     list_all (\<lambda>(k, v). digitString k) (setProperty studentInfo k v)"
  by (induction studentInfo k v rule: setProperty.induct) simp_all

lemma takeWhile_digitString: "takeWhile isDigit s \<noteq> [] \<Longrightarrow> digitString (takeWhile isDigit s)"
  by (auto simp: digitString_def list_all_iff dest: set_takeWhileD)

lemma numberThenName_digits: "numberThenName line = Some (k, nm) \<Longrightarrow> digitString k"
  by (auto simp: numberThenName_def Let_def takeWhile_digitString split: if_splits)

lemma numberOnly_digits: "numberOnly line = Some k \<Longrightarrow> digitString k"
  by (auto simp: numberOnly_def Let_def takeWhile_digitString split: if_splits)

lemma firstNumber_digits: "list_ex isDigit line \<Longrightarrow> digitString (firstNumber line)"
proof -
  assume "list_ex isDigit line"
  then have "dropWhile (\<lambda>c. \<not> isDigit c) line \<noteq> []"
    by (auto simp: list_ex_iff dropWhile_eq_Nil_conv)
  then obtain c r where d: "dropWhile (\<lambda>c. \<not> isDigit c) line = c # r"
    by (cases "dropWhile (\<lambda>c. \<not> isDigit c) line") auto
  then have "isDigit c"
    using hd_dropWhile [of "\<lambda>c. \<not> isDigit c" line] by simp
  with d show ?thesis
    unfolding firstNumber_def by (intro takeWhile_digitString) simp
qed

lemma infoStep_keys:
  "list_all (\<lambda>(k, v). digitString k) studentInfo \<Longrightarrow>
     list_all (\<lambda>(k, v). digitString k) (fst (infoStep l rest studentInfo))"
  unfolding infoStep_def Let_def
  by (auto split: option.splits dest!: numberThenName_digits numberOnly_digits
      intro!: setProperty_keys firstNumber_digits)

lemma infoLoop_keys:
  "list_all (\<lambda>(k, v). digitString k) studentInfo \<Longrightarrow>
     list_all (\<lambda>(k, v). digitString k) (infoLoop ls studentInfo)"
proof (induction ls studentInfo rule: infoLoop.induct)
  case (1 studentInfo)
  then show ?case by simp
next
  case (2 l rest studentInfo)
  obtain studentInfo' used where s: "infoStep l rest studentInfo = (studentInfo', used)"
    by (cases "infoStep l rest studentInfo")
  from infoStep_keys [OF "2.prems", of l rest] s
  have "list_all (\<lambda>(k, v). digitString k) studentInfo'"
    by simp
  from "2.IH" [OF s [symmetric] this] s show ?case
    by simp
qed

lemma extractStudentInfoFromSection_keys:
  "list_all (\<lambda>(k, v). digitString k) (extractStudentInfoFromSection studentSection)"
  unfolding extractStudentInfoFromSection_def by (rule infoLoop_keys) simp

lemma set_objectEntries: "set (objectEntries obj) = set obj"
  by (auto simp: objectEntries_def)

lemma objectEntries_keys:
  "list_all (\<lambda>(k, v). digitString k) obj \<Longrightarrow> list_all (\<lambda>(k, v). digitString k) (objectEntries obj)"
  by (simp add: list_all_iff set_objectEntries)

lemma assignMarksToStudents_range:
  assumes "studentInfo \<noteq> []" "list_all (\<lambda>(k, v). digitString k) studentInfo"
    and "list_all inMarkRange markValues"
    and "assignMarksToStudents studentInfo markValues = Some students"
  shows "marksInRange students"
proof -
  let ?e = "min 4 (length markValues div length studentInfo)"
  have sub: "set (assignedMarks (marksOf (take ?e (drop n markValues)))) \<subseteq> set markValues" for n
    using assignedMarks_marksOf_subset [of "take ?e (drop n markValues)"]
      set_take_subset [of ?e "drop n markValues"] set_drop_subset [of n markValues]
    by blast
  from assignMarksToStudents_eq [OF assms(1,2), of markValues] assms(4)
  have "students = map (\<lambda>(k, (id', nm)).
                  \<lparr>number = id', name = nm,
                   marks = marksOf (take ?e (drop (k * ?e) markValues))\<rparr>)
               (enumerate 0 (sort_key fst (idsOf studentInfo)))"
    by simp
  then show ?thesis
    using assms(3) unfolding marksInRange_def list_all_iff
    by (auto simp del: assignedMarks.simps dest!: subsetD [OF sub])
qed

text \<open>Every mark of a record of the pattern-based extractor is between 0 and 20.\<close>

lemma extractStudentsByPatterns_range: "marksInRange (extractStudentsByPatterns toLowerCase lines)"
proof (cases "findStudentSection toLowerCase lines")
  case None
  then show ?thesis
    by (simp add: extractStudentsByPatterns_def marksInRange_def)
next
  case (Some studentSection)
  let ?info = "objectEntries (extractStudentInfoFromSection studentSection)"
  show ?thesis
  proof (cases "assignMarksToStudents ?info (extractMarkValues lines)")
    case None
    with Some show ?thesis
      by (simp add: extractStudentsByPatterns_def marksInRange_def Let_def)
  next
    case (Some students)
    show ?thesis
    proof (cases "?info = []")
      case True
      with \<open>findStudentSection toLowerCase lines = Some studentSection\<close> show ?thesis
        by (simp add: extractStudentsByPatterns_def marksInRange_def Let_def)
    next
      case False
      from assignMarksToStudents_range [OF False
          objectEntries_keys [OF extractStudentInfoFromSection_keys]
          extractMarkValues_range Some]
      have "marksInRange students" .
      with False Some \<open>findStudentSection toLowerCase lines = Some studentSection\<close>
      show ?thesis
        by (simp add: extractStudentsByPatterns_def Let_def)
    qed
  qed
qed

text \<open>Every mark of a record of the basic extractor is between 0 and 20.\<close>

lemma basicStudent_range:
  "basicStudent numberToString studentLines i = Some s \<Longrightarrow>
     list_all inMarkRange (assignedMarks (marks s))"
proof -
  assume a: "basicStudent numberToString studentLines i = Some s"
  let ?l = "filter inMarkRange (map tokenValue (decimalTokens None (studentLines ! i)))"
  from a have "marks s = marksOf ?l"
    by (auto simp: basicStudent_def Let_def split: if_splits)
  moreover have "set (assignedMarks (marksOf ?l)) \<subseteq> set ?l"
    by (rule assignedMarks_marksOf_subset)
  ultimately show ?thesis
    unfolding list_all_iff by (auto simp del: assignedMarks.simps)
qed

lemma extractBasicStudentData_range: "marksInRange (extractBasicStudentData numberToString lines)"
  unfolding marksInRange_def extractBasicStudentData_def Let_def list_all_iff
  by (auto simp: map_filter_def list_all_iff [symmetric] simp del: assignedMarks.simps
      intro: basicStudent_range)

text \<open>
  So a mark outside the range can only come from the table-based strategy: when that
  strategy has no record, every mark of the coordinator's result is between 0 and 20.
\<close>

lemma processOCR_range:
  "tableResult (detectTable toLowerCase) (extractStudentData numberToString)
       (prepareLines extractedText) = [] \<Longrightarrow>
     marksInRange (snd (processOCR toLowerCase numberToString extractedText))"
  by (auto simp: processOCR_def processOCRWithMultipleApproaches_def fallbackApproaches_def
      tableResult_def Let_def extractStudentsByPatterns_range extractBasicStudentData_range
      split: option.splits)

text \<open>
  The three strategies at work. On the first text the table has a header row only and the
  pattern-based extractor supplies the record; on the second the student section starts
  at the header in the last line, so that the pattern-based extractor finds no student,
  and the basic extractor supplies the record, without the token 30.5.
\<close>

lemma processOCR_pattern_example:
  "processOCR (\<lambda>s. s) numberToString patternText =
     ([DetectTable, ExtractStudentData, ExtractStudentsByPatterns],
      [\<lparr>number = 5, name = ascii ''abc  '' @ [0x623, 0x62D, 0x645, 0x62F],
        marks = \<lparr>fard1 = Some 5, fard2 = None, fard3 = None, activities = None\<rparr>\<rparr>])"
  by code_simp

lemma processOCR_basic_example:
  "processOCR (\<lambda>s. s) numberToString basicText =
     ([DetectTable, ExtractStudentData, ExtractStudentsByPatterns, ExtractBasicStudentData],
      [\<lparr>number = 12, name = ascii ''abc'',
        marks = \<lparr>fard1 = Some (29 / 2), fard2 = None, fard3 = None, activities = None\<rparr>\<rparr>])"
  by code_simp

text \<open>
  The pattern-based extractor on the three lines of Scenario A: the marks are dealt in
  the order of the text, the digits of the header among them.
\<close>

lemma extractStudentsByPatterns_scenarioA:
  "extractStudentsByPatterns (\<lambda>s. s) scenarioA =
     [\<lparr>number = 1, name = [0x623, 0x62D, 0x645, 0x62F],
       marks = \<lparr>fard1 = Some 1, fard2 = Some 2, fard3 = Some 1, activities = Some (31 / 2)\<rparr>\<rparr>,
      \<lparr>number = 2, name = [0x633, 0x639, 0x64A, 0x62F],
       marks = \<lparr>fard1 = Some 12, fard2 = Some 2, fard3 = Some 18, activities = Some (19 / 2)\<rparr>\<rparr>]"
  by code_simp

subsection \<open>The coordinator\<close>

text \<open>
  C3: for every input the coordinator returns the table-based result when it has a
  record, otherwise the pattern-based result when it has a record, otherwise the basic
  result, and it calls the pattern-based extractor only when the table-based result is empty,
  the basic extractor only when the pattern-based result is empty too: when the table-based
  strategy yields a record the calls are exactly detectTable and extractStudentData.
\<close>

theorem processOCR_first_nonempty_strategy:
  "snd (processOCRWithMultipleApproaches dt es ep eb extractedText) =
     (if tableResult dt es (prepareLines extractedText) \<noteq> []
      then tableResult dt es (prepareLines extractedText)
      else if ep (prepareLines extractedText) \<noteq> [] then ep (prepareLines extractedText)
      else eb (prepareLines extractedText))
   \<and> fst (processOCRWithMultipleApproaches dt es ep eb extractedText) =
     [DetectTable]
     @ (if dt (prepareLines extractedText) = None then [] else [ExtractStudentData])
     @ (if tableResult dt es (prepareLines extractedText) \<noteq> [] then []
        else [ExtractStudentsByPatterns]
             @ (if ep (prepareLines extractedText) \<noteq> [] then [] else [ExtractBasicStudentData]))"
  by (auto simp: processOCRWithMultipleApproaches_def fallbackApproaches_def tableResult_def
      Let_def split: option.splits)

text \<open>
  C1 (every non-null mark of every strategy lies in [0, 20]): the pattern-based and the
  basic extractor test \<open>markValue >= 0 && markValue <= 20\<close> before they keep a value
  (\<open>extractStudentsByPatterns_range\<close>, \<open>extractBasicStudentData_range\<close>), the
  table-based extractor copies the value of every numeric cell of a mark column. On
  the text above the table is detected (\<open>toLowerCase\<close> leaves these characters as they
  are), and the coordinator returns the table-based record with fard1 = 25, whatever the
  other two extractors are.
\<close>

theorem table_strategy_mark_above_20:
  "processOCRWithMultipleApproaches (detectTable (\<lambda>s. s)) (extractStudentData numberToString) ep eb
     markAboveRange =
   ([DetectTable, ExtractStudentData],
    [\<lparr>number = 1, name = [0x623, 0x62D, 0x645, 0x62F],
      marks = \<lparr>fard1 = Some 25, fard2 = None, fard3 = None, activities = None\<rparr>\<rparr>])"
  by code_simp

end
